theory Spec2Isabelle
  imports Main
begin

section \<open>Common conventions\<close>

text \<open>
  A Python exception is represented by its message, the value of \<open>str(e)\<close>.
  A Python \<open>str\<close> is a list of characters; a character stands for a code point below 256.
  A call that may raise returns \<open>exn option\<close> (\<open>None\<close>: it returned normally) or
  \<open>exn + 'a\<close> (\<open>Inl\<close>: it raised).
\<close>

type_synonym exn = string

text \<open>Decimal rendering of an integer, as an f-string renders an \<open>int\<close>.\<close>

fun digits_of :: "nat \<Rightarrow> string" where
  "digits_of n =
     (if n < 10 then [char_of (48 + n)]
      else digits_of (n div 10) @ [char_of (48 + n mod 10)])"

declare digits_of.simps [simp del]

definition str_int :: "int \<Rightarrow> string" where
  "str_int i = (if i < 0 then CHR ''-'' # digits_of (nat (- i)) else digits_of (nat i))"

section \<open>ActionLogger (src/utils/logger.py)\<close>

text \<open>
  One entry of \<open>ActionLogger.actions\<close>. The \<open>timestamp\<close> key (the wall clock at the
  time of the call) is left out.
\<close>

record action_record =
  ar_action :: string
  ar_success :: bool
  ar_details :: "string option"

text \<open>
  What an ActionLogger hands to its \<open>logging.Logger\<close>: one constructor per method, holding
  the arguments from which the message is formatted; \<open>RawLine\<close> is a direct call of the
  module's logger.
\<close>

datatype level = INFO | WARNING | ERROR

datatype log_line =
    ActionLine bool string "string option"
  | StepLine string "string option"
  | WarningLine string
  | ErrorLine string "exn option"
  | SuccessLine string
  | RawLine level string

record action_logger =
  actions :: "action_record list"
  emitted :: "log_line list"

definition new_action_logger :: action_logger where
  "new_action_logger = \<lparr>actions = [], emitted = []\<rparr>"

definition log_action :: "string \<Rightarrow> bool \<Rightarrow> string option \<Rightarrow> action_logger \<Rightarrow> action_logger" where
  "log_action action success details lg =
     lg\<lparr>emitted := emitted lg @ [ActionLine success action details],
        actions := actions lg @ [\<lparr>ar_action = action, ar_success = success, ar_details = details\<rparr>]\<rparr>"

definition log_step :: "string \<Rightarrow> string option \<Rightarrow> action_logger \<Rightarrow> action_logger" where
  "log_step step description lg = lg\<lparr>emitted := emitted lg @ [StepLine step description]\<rparr>"

definition log_warning :: "string \<Rightarrow> action_logger \<Rightarrow> action_logger" where
  "log_warning message lg = lg\<lparr>emitted := emitted lg @ [WarningLine message]\<rparr>"

definition log_error :: "string \<Rightarrow> exn option \<Rightarrow> action_logger \<Rightarrow> action_logger" where
  "log_error message exception lg = lg\<lparr>emitted := emitted lg @ [ErrorLine message exception]\<rparr>"

definition log_success :: "string \<Rightarrow> action_logger \<Rightarrow> action_logger" where
  "log_success message lg = lg\<lparr>emitted := emitted lg @ [SuccessLine message]\<rparr>"

definition log_raw :: "level \<Rightarrow> string \<Rightarrow> action_logger \<Rightarrow> action_logger" where
  "log_raw lv message lg = lg\<lparr>emitted := emitted lg @ [RawLine lv message]\<rparr>"

definition get_actions :: "action_logger \<Rightarrow> action_record list" where
  "get_actions lg = actions lg"

definition clear_actions :: "action_logger \<Rightarrow> action_logger" where
  "clear_actions lg = lg\<lparr>actions := []\<rparr>"

section \<open>BrowserManager (src/automation/browser_manager.py)\<close>

text \<open>
  The Playwright page and the file system are the world \<open>'w\<close>; each operation the manager
  calls on them is a field of \<open>page_ops\<close>: it takes the world and returns what the call did
  (returned or raised) with the world after it.
\<close>

record 'w page_ops =
  goto :: "string \<Rightarrow> 'w \<Rightarrow> exn option \<times> 'w"
  wait_for_selector :: "string \<Rightarrow> nat \<Rightarrow> 'w \<Rightarrow> exn option \<times> 'w"
  click :: "string \<Rightarrow> 'w \<Rightarrow> exn option \<times> 'w"
  fill :: "string \<Rightarrow> string \<Rightarrow> 'w \<Rightarrow> exn option \<times> 'w"
  screenshot :: "string \<Rightarrow> 'w \<Rightarrow> exn option \<times> 'w"
  content :: "'w \<Rightarrow> (exn + string) \<times> 'w"
  write_file :: "string \<Rightarrow> string \<Rightarrow> 'w \<Rightarrow> exn option \<times> 'w"

text \<open>The fields of \<open>Config\<close> that the manager reads.\<close>

record bm_config =
  screenshot_on_error :: bool
  save_html_on_error :: bool
  max_wait_time :: nat

record 'w browser_manager =
  page :: 'w
  action_logger :: action_logger

definition bm_log :: "(action_logger \<Rightarrow> action_logger) \<Rightarrow> 'w browser_manager \<Rightarrow> 'w browser_manager" where
  "bm_log f bm = bm\<lparr>action_logger := f (action_logger bm)\<rparr>"

definition navigate :: "'w page_ops \<Rightarrow> string \<Rightarrow> 'w browser_manager \<Rightarrow> bool \<times> 'w browser_manager" where
  "navigate ops url bm =
     (let bm1 = bm_log (log_step (''Navigating to '' @ url) None) bm;
          (r, w) = goto ops url (page bm1);
          bm2 = bm1\<lparr>page := w\<rparr>
      in case r of
           None \<Rightarrow> (True, bm_log (log_action (''Navigated to '' @ url) True None) bm2)
         | Some e \<Rightarrow> (False, bm_log (log_action (''Navigate to '' @ url) False (Some e)) bm2))"

text \<open>
  The \<open>try\<close> block of one iteration of \<open>click_element\<close>: \<open>None\<close> when it ran to its
  \<open>return True\<close>, \<open>Some e\<close> when a call raised \<open>e\<close>.
\<close>

definition try_click :: "'w page_ops \<Rightarrow> string \<Rightarrow> 'w browser_manager \<Rightarrow> exn option \<times> 'w browser_manager" where
  "try_click ops sel bm =
     (let bm1 = bm_log (log_step (''Attempting to click element: '' @ sel) None) bm;
          (r1, w1) = wait_for_selector ops sel 5000 (page bm1)
      in case r1 of
           Some e \<Rightarrow> (Some e, bm1\<lparr>page := w1\<rparr>)
         | None \<Rightarrow>
             (let (r2, w2) = click ops sel w1
              in case r2 of
                   Some e \<Rightarrow> (Some e, bm1\<lparr>page := w2\<rparr>)
                 | None \<Rightarrow> (None, bm_log (log_action (''Clicked element: '' @ sel) True None)
                                     (bm1\<lparr>page := w2\<rparr>))))"

text \<open>
  The \<open>for i, sel in enumerate(selectors_to_try)\<close> loop; \<open>i == len(selectors_to_try) - 1\<close>
  holds exactly when no selector is left. The first equation is the \<open>return False\<close> after
  the loop.
\<close>

fun click_loop :: "'w page_ops \<Rightarrow> string list \<Rightarrow> 'w browser_manager \<Rightarrow> bool \<times> 'w browser_manager" where
  "click_loop ops [] bm = (False, bm)"
| "click_loop ops (sel # rest) bm =
     (case try_click ops sel bm of
        (None, bm1) \<Rightarrow> (True, bm1)
      | (Some e, bm1) \<Rightarrow>
          if rest = [] then (False, bm_log (log_action (''Click element: '' @ sel) False (Some e)) bm1)
          else click_loop ops rest
                 (bm_log (log_raw WARNING (''Failed to click '' @ sel @ '', trying fallback: '' @ e)) bm1))"

definition selectors_to_try :: "string \<Rightarrow> string list option \<Rightarrow> string list" where
  "selectors_to_try selector fallback_selectors =
     selector # (case fallback_selectors of None \<Rightarrow> [] | Some fs \<Rightarrow> fs)"

definition click_element ::
  "'w page_ops \<Rightarrow> string \<Rightarrow> string list option \<Rightarrow> 'w browser_manager \<Rightarrow> bool \<times> 'w browser_manager" where
  "click_element ops selector fallback_selectors bm =
     click_loop ops (selectors_to_try selector fallback_selectors) bm"

definition try_type :: "'w page_ops \<Rightarrow> string \<Rightarrow> string \<Rightarrow> 'w browser_manager \<Rightarrow> exn option \<times> 'w browser_manager" where
  "try_type ops sel text bm =
     (let bm1 = bm_log (log_step (''Attempting to type in element: '' @ sel) None) bm;
          (r1, w1) = wait_for_selector ops sel 5000 (page bm1)
      in case r1 of
           Some e \<Rightarrow> (Some e, bm1\<lparr>page := w1\<rparr>)
         | None \<Rightarrow>
             (let (r2, w2) = fill ops sel text w1
              in case r2 of
                   Some e \<Rightarrow> (Some e, bm1\<lparr>page := w2\<rparr>)
                 | None \<Rightarrow> (None, bm_log (log_action (''Typed text in element: '' @ sel) True None)
                                     (bm1\<lparr>page := w2\<rparr>))))"

fun type_loop :: "'w page_ops \<Rightarrow> string list \<Rightarrow> string \<Rightarrow> 'w browser_manager \<Rightarrow> bool \<times> 'w browser_manager" where
  "type_loop ops [] text bm = (False, bm)"
| "type_loop ops (sel # rest) text bm =
     (case try_type ops sel text bm of
        (None, bm1) \<Rightarrow> (True, bm1)
      | (Some e, bm1) \<Rightarrow>
          if rest = [] then (False, bm_log (log_action (''Type text in element: '' @ sel) False (Some e)) bm1)
          else type_loop ops rest text
                 (bm_log (log_raw WARNING (''Failed to type in '' @ sel @ '', trying fallback: '' @ e)) bm1))"

definition type_text ::
  "'w page_ops \<Rightarrow> string \<Rightarrow> string \<Rightarrow> string list option \<Rightarrow> 'w browser_manager \<Rightarrow> bool \<times> 'w browser_manager" where
  "type_text ops selector text fallback_selectors bm =
     type_loop ops (selectors_to_try selector fallback_selectors) text bm"

text \<open>\<open>timeout or self.config.max_wait_time\<close>: an absent or zero timeout takes the default.\<close>

definition wait_for_element ::
  "bm_config \<Rightarrow> 'w page_ops \<Rightarrow> string \<Rightarrow> nat option \<Rightarrow> 'w browser_manager \<Rightarrow> bool \<times> 'w browser_manager" where
  "wait_for_element cfg ops selector timeout bm =
     (let timeout_ms = (case timeout of None \<Rightarrow> max_wait_time cfg
                        | Some t \<Rightarrow> if t = 0 then max_wait_time cfg else t) * 1000;
          (r, w) = wait_for_selector ops selector timeout_ms (page bm);
          bm1 = bm\<lparr>page := w\<rparr>
      in case r of
           None \<Rightarrow> (True, bm_log (log_action (''Waited for element: '' @ selector) True None) bm1)
         | Some e \<Rightarrow> (False, bm_log (log_action (''Wait for element: '' @ selector) False (Some e)) bm1))"

text \<open>
  \<open>take_screenshot\<close> and \<open>save_page_html\<close> called with a file name, as
  \<open>execute_action_plan\<close> calls them; the screenshots directory is \<open>screenshots\<close>.
\<close>

definition take_screenshot :: "'w page_ops \<Rightarrow> string \<Rightarrow> 'w browser_manager \<Rightarrow> string option \<times> 'w browser_manager" where
  "take_screenshot ops filename bm =
     (let filepath = ''screenshots/'' @ filename;
          (r, w) = screenshot ops filepath (page bm);
          bm1 = bm\<lparr>page := w\<rparr>
      in case r of
           None \<Rightarrow> (Some filepath, bm_log (log_action (''Took screenshot: '' @ filename) True None) bm1)
         | Some e \<Rightarrow> (None, bm_log (log_action ''Take screenshot'' False (Some e)) bm1))"

definition save_page_html :: "'w page_ops \<Rightarrow> string \<Rightarrow> 'w browser_manager \<Rightarrow> string option \<times> 'w browser_manager" where
  "save_page_html ops filename bm =
     (let filepath = ''screenshots/'' @ filename;
          (c, w1) = content ops (page bm)
      in case c of
           Inl e \<Rightarrow> (None, bm_log (log_action ''Save HTML'' False (Some e)) (bm\<lparr>page := w1\<rparr>))
         | Inr html \<Rightarrow>
             (let (r, w2) = write_file ops filepath html w1;
                  bm2 = bm\<lparr>page := w2\<rparr>
              in case r of
                   None \<Rightarrow> (Some filepath, bm_log (log_action (''Saved HTML: '' @ filename) True None) bm2)
                 | Some e \<Rightarrow> (None, bm_log (log_action ''Save HTML'' False (Some e)) bm2)))"

text \<open>
  One record of the action plan handed to \<open>execute_action_plan\<close>, with the keys the
  method reads; of a fallback action it reads the \<open>target\<close>.
\<close>

record fallback_action =
  fa_action :: string
  fa_target :: string

record plan_step =
  ps_step :: int
  ps_action :: string
  ps_target :: string
  ps_value :: string
  ps_description :: string
  ps_fallback_actions :: "fallback_action list"

record action_result =
  res_step :: int
  res_action :: string
  res_target :: string
  res_description :: string
  res_success :: bool

record plan_results =
  pr_success :: bool
  pr_actions :: "action_result list"
  pr_errors :: "string list"
  pr_screenshots :: "string list"

text \<open>The \<open>if\<close>/\<open>elif\<close> chain on \<open>action_type\<close>; \<open>success\<close> starts as \<open>False\<close>.\<close>

definition run_action ::
  "bm_config \<Rightarrow> 'w page_ops \<Rightarrow> plan_step \<Rightarrow> 'w browser_manager \<Rightarrow> bool \<times> 'w browser_manager" where
  "run_action cfg ops a bm =
     (if ps_action a = ''navigate'' then navigate ops (ps_target a) bm
      else if ps_action a = ''click'' then
        click_element ops (ps_target a) (Some (map fa_target (ps_fallback_actions a))) bm
      else if ps_action a = ''type'' then
        type_text ops (ps_target a) (ps_value a) (Some (map fa_target (ps_fallback_actions a))) bm
      else if ps_action a = ''wait'' then wait_for_element cfg ops (ps_target a) None bm
      else if ps_action a = ''verify'' then wait_for_element cfg ops (ps_target a) (Some 5) bm
      else (False, bm))"

definition failure_message :: "plan_step \<Rightarrow> string" where
  "failure_message a = ''Step '' @ str_int (ps_step a) @ '' failed: '' @ ps_description a"

definition capture_screenshot ::
  "bm_config \<Rightarrow> 'w page_ops \<Rightarrow> plan_step \<Rightarrow> plan_results \<times> 'w browser_manager
     \<Rightarrow> plan_results \<times> 'w browser_manager" where
  "capture_screenshot cfg ops a = (\<lambda>(results, bm).
     if screenshot_on_error cfg then
       (case take_screenshot ops (''error_step_'' @ str_int (ps_step a) @ ''.png'') bm of
          (Some path, bm1) \<Rightarrow> (results\<lparr>pr_screenshots := pr_screenshots results @ [path]\<rparr>, bm1)
        | (None, bm1) \<Rightarrow> (results, bm1))
     else (results, bm))"

definition capture_html ::
  "bm_config \<Rightarrow> 'w page_ops \<Rightarrow> plan_step \<Rightarrow> plan_results \<times> 'w browser_manager
     \<Rightarrow> plan_results \<times> 'w browser_manager" where
  "capture_html cfg ops a = (\<lambda>(results, bm).
     if save_html_on_error cfg then
       (case save_page_html ops (''error_step_'' @ str_int (ps_step a) @ ''.html'') bm of
          (Some path, bm1) \<Rightarrow> (results\<lparr>pr_screenshots := pr_screenshots results @ [path]\<rparr>, bm1)
        | (None, bm1) \<Rightarrow> (results, bm1))
     else (results, bm))"

text \<open>
  The body of the \<open>for action in actions\<close> loop, for a step that is a dict with values
  of the types above. Every call the body makes catches its own exceptions, so the
  \<open>except\<close> clause of the loop body is not reached.
\<close>

definition plan_step_body ::
  "bm_config \<Rightarrow> 'w page_ops \<Rightarrow> plan_step \<Rightarrow> plan_results \<times> 'w browser_manager
     \<Rightarrow> plan_results \<times> 'w browser_manager" where
  "plan_step_body cfg ops a = (\<lambda>(results, bm).
     let bm1 = bm_log (log_step (''Step '' @ str_int (ps_step a) @ '': '' @ ps_description a) None) bm;
         (success, bm2) = run_action cfg ops a bm1;
         action_result = \<lparr>res_step = ps_step a, res_action = ps_action a, res_target = ps_target a,
                          res_description = ps_description a, res_success = success\<rparr>;
         results1 = results\<lparr>pr_actions := pr_actions results @ [action_result]\<rparr>
     in if success then (results1, bm2)
        else capture_html cfg ops a
               (capture_screenshot cfg ops a
                  (results1\<lparr>pr_success := False,
                            pr_errors := pr_errors results1 @ [failure_message a]\<rparr>, bm2)))"

definition empty_results :: plan_results where
  "empty_results = \<lparr>pr_success = True, pr_actions = [], pr_errors = [], pr_screenshots = []\<rparr>"

definition execute_action_plan ::
  "bm_config \<Rightarrow> 'w page_ops \<Rightarrow> plan_step list \<Rightarrow> 'w browser_manager
     \<Rightarrow> plan_results \<times> 'w browser_manager" where
  "execute_action_plan cfg ops plan bm = fold (plan_step_body cfg ops) plan (empty_results, bm)"

subsection \<open>Observations on a manager's log\<close>

text \<open>The texts of the \<open>log_step\<close> calls among the emitted lines, in order.\<close>

fun step_texts :: "log_line list \<Rightarrow> string list" where
  "step_texts [] = []"
| "step_texts (StepLine s d # ls) = s # step_texts ls"
| "step_texts (l # ls) = step_texts ls"

definition bm_steps :: "'w browser_manager \<Rightarrow> string list" where
  "bm_steps bm = step_texts (emitted (action_logger bm))"

definition bm_actions :: "'w browser_manager \<Rightarrow> action_record list" where
  "bm_actions bm = actions (action_logger bm)"

text \<open>
  What one attempt on a selector does in world \<open>w\<close>: the exception of the first page call
  that raises, or \<open>None\<close> when the wait and the click (or the fill) both return.
\<close>

definition click_outcome :: "'w page_ops \<Rightarrow> string \<Rightarrow> 'w \<Rightarrow> exn option" where
  "click_outcome ops sel w =
     (case wait_for_selector ops sel 5000 w of
        (Some e, w1) \<Rightarrow> Some e
      | (None, w1) \<Rightarrow> fst (click ops sel w1))"

definition type_outcome :: "'w page_ops \<Rightarrow> string \<Rightarrow> string \<Rightarrow> 'w \<Rightarrow> exn option" where
  "type_outcome ops sel text w =
     (case wait_for_selector ops sel 5000 w of
        (Some e, w1) \<Rightarrow> Some e
      | (None, w1) \<Rightarrow> fst (fill ops sel text w1))"

definition attempt_text :: "string \<Rightarrow> string" where
  "attempt_text sel = ''Attempting to click element: '' @ sel"

text \<open>The message \<open>execute_action_plan\<close> appends to \<open>errors\<close> for a failed action result.\<close>

definition error_text :: "action_result \<Rightarrow> string" where
  "error_text a = ''Step '' @ str_int (res_step a) @ '' failed: '' @ res_description a"

definition result_of :: "plan_step \<Rightarrow> bool \<Rightarrow> action_result" where
  "result_of a ok = \<lparr>res_step = ps_step a, res_action = ps_action a, res_target = ps_target a,
                      res_description = ps_description a, res_success = ok\<rparr>"

text \<open>
  A page for concrete runs: the world is the list of page calls made so far; an element is
  visible exactly when its selector is in \<open>visible\<close>, and every other call succeeds.
\<close>

definition static_page :: "string list \<Rightarrow> (string list) page_ops" where
  "static_page visible =
     \<lparr>goto = (\<lambda>url w. (None, w @ [''goto '' @ url])),
      wait_for_selector = (\<lambda>sel t w.
         (if sel \<in> set visible then None else Some (''Timeout waiting for '' @ sel), w @ [''wait '' @ sel])),
      click = (\<lambda>sel w. (None, w @ [''click '' @ sel])),
      fill = (\<lambda>sel text w. (None, w @ [''fill '' @ sel])),
      screenshot = (\<lambda>path w. (None, w @ [''screenshot '' @ path])),
      content = (\<lambda>w. (Inr ''<html></html>'', w)),
      write_file = (\<lambda>path text w. (None, w @ [''write '' @ path]))\<rparr>"

definition fresh_manager :: "(string list) browser_manager" where
  "fresh_manager = \<lparr>page = [], action_logger = new_action_logger\<rparr>"

subsection \<open>Attempts on the page\<close>

text \<open>
  One attempt on a candidate seen from the page alone: the wait for the selector, then
  the click on it, in the world \<open>w\<close>; the exception raised, if any, and the world the
  two calls leave.
\<close>

definition click_attempt :: "'w page_ops \<Rightarrow> string \<Rightarrow> 'w \<Rightarrow> exn option \<times> 'w" where
  "click_attempt ops sel w =
     (case wait_for_selector ops sel 5000 w of
        (Some e, w1) \<Rightarrow> (Some e, w1)
      | (None, w1) \<Rightarrow> click ops sel w1)"

text \<open>
  The candidates are attempted one after the other, each in the world the attempt before
  left, and all of them fail: the world after the last attempt. \<open>None\<close> when one of the
  attempts succeeds.
\<close>

fun fail_all :: "'w page_ops \<Rightarrow> string list \<Rightarrow> 'w \<Rightarrow> 'w option" where
  "fail_all ops [] w = Some w"
| "fail_all ops (c # cs) w =
     (case click_attempt ops c w of
        (None, w1) \<Rightarrow> None
      | (Some e, w1) \<Rightarrow> fail_all ops cs w1)"

subsection \<open>The run of a plan\<close>

definition step_text :: "plan_step \<Rightarrow> string" where
  "step_text a = ''Step '' @ str_int (ps_step a) @ '': '' @ ps_description a"

text \<open>The manager after the captures that follow a failed step, as the configuration asks.\<close>

definition capture_state :: "bm_config \<Rightarrow> 'w page_ops \<Rightarrow> plan_step \<Rightarrow> 'w browser_manager \<Rightarrow> 'w browser_manager" where
  "capture_state cfg ops a bm =
     (let bm1 = (if screenshot_on_error cfg
                 then snd (take_screenshot ops (''error_step_'' @ str_int (ps_step a) @ ''.png'') bm)
                 else bm)
      in if save_html_on_error cfg
         then snd (save_page_html ops (''error_step_'' @ str_int (ps_step a) @ ''.html'') bm1)
         else bm1)"

text \<open>
  What running a plan without ever stopping means: every step's action is run, in the
  plan's order, in the manager the step before left (after its captures when it
  failed); the outcomes of the steps and the manager after the last one.
\<close>

fun plan_run ::
  "bm_config \<Rightarrow> 'w page_ops \<Rightarrow> plan_step list \<Rightarrow> 'w browser_manager \<Rightarrow> bool list \<times> 'w browser_manager" where
  "plan_run cfg ops [] bm = ([], bm)"
| "plan_run cfg ops (a # plan) bm =
     (let (ok, bm1) = run_action cfg ops a (bm_log (log_step (step_text a) None) bm);
          (oks, bm') = plan_run cfg ops plan (if ok then bm1 else capture_state cfg ops a bm1)
      in (ok # oks, bm'))"

text \<open>A five-step plan for concrete runs, with a page on which the target of step 3 is missing.\<close>

definition demo_config :: bm_config where
  "demo_config = \<lparr>screenshot_on_error = True, save_html_on_error = True, max_wait_time = 10\<rparr>"

definition demo_plan :: "plan_step list" where
  "demo_plan =
     [\<lparr>ps_step = 1, ps_action = ''navigate'', ps_target = ''https://gmail.com'', ps_value = [],
        ps_description = ''Navigate to Gmail'', ps_fallback_actions = []\<rparr>,
      \<lparr>ps_step = 2, ps_action = ''click'', ps_target = ''#compose'', ps_value = [],
        ps_description = ''Click compose button'', ps_fallback_actions = []\<rparr>,
      \<lparr>ps_step = 3, ps_action = ''type'', ps_target = ''#to'', ps_value = ''alice@example.com'',
        ps_description = ''Enter recipient email'',
        ps_fallback_actions = [\<lparr>fa_action = ''type'', fa_target = ''#recipient''\<rparr>]\<rparr>,
      \<lparr>ps_step = 4, ps_action = ''type'', ps_target = ''#subject'', ps_value = ''Hello'',
        ps_description = ''Enter subject'', ps_fallback_actions = []\<rparr>,
      \<lparr>ps_step = 5, ps_action = ''click'', ps_target = ''#send'', ps_value = [],
        ps_description = ''Send the email'', ps_fallback_actions = []\<rparr>]"

definition demo_page :: "(string list) page_ops" where
  "demo_page = static_page [''#compose'', ''#subject'', ''#send'']"

text \<open>A plan whose second step has an action outside the five the manager knows.\<close>

definition hover_plan :: "plan_step list" where
  "hover_plan =
     [\<lparr>ps_step = 1, ps_action = ''navigate'', ps_target = ''https://gmail.com'', ps_value = [],
        ps_description = ''Navigate to Gmail'', ps_fallback_actions = []\<rparr>,
      \<lparr>ps_step = 2, ps_action = ''hover'', ps_target = ''#menu'', ps_value = [],
        ps_description = ''Hover over the menu'', ps_fallback_actions = []\<rparr>]"

section \<open>ActionLogger on a store of objects\<close>

text \<open>
  \<open>self.actions\<close> is a reference to a list object whose elements are references to the
  dict objects of the entries, and \<open>get_actions\<close> hands a list object to its caller. To
  say what the caller can reach, objects live in a store: \<open>lists\<close> maps the reference of a
  list object to its elements, \<open>dicts\<close> maps the reference of an entry to its content, and
  \<open>next_ref\<close> is the next reference to allocate.
\<close>

type_synonym ref = nat

record store =
  lists :: "ref \<Rightarrow> ref list option"
  dicts :: "ref \<Rightarrow> action_record option"
  next_ref :: ref

record logger_object =
  lg_actions :: ref

definition list_at :: "store \<Rightarrow> ref \<Rightarrow> ref list" where
  "list_at st r = (case lists st r of Some xs \<Rightarrow> xs | None \<Rightarrow> [])"

text \<open>\<open>__init__\<close>: \<open>self.actions = []\<close> allocates an empty list.\<close>

definition init_logger :: "store \<Rightarrow> logger_object \<times> store" where
  "init_logger st =
     (\<lparr>lg_actions = next_ref st\<rparr>,
      st\<lparr>lists := (lists st)(next_ref st \<mapsto> []), next_ref := Suc (next_ref st)\<rparr>)"

text \<open>\<open>log_action\<close>: a new dict is allocated and its reference appended to \<open>self.actions\<close>.\<close>

definition log_action_st :: "string \<Rightarrow> bool \<Rightarrow> string option \<Rightarrow> logger_object \<Rightarrow> store \<Rightarrow> store" where
  "log_action_st action success details lg st =
     st\<lparr>dicts := (dicts st)(next_ref st \<mapsto>
                     \<lparr>ar_action = action, ar_success = success, ar_details = details\<rparr>),
        lists := (lists st)(lg_actions lg \<mapsto> list_at st (lg_actions lg) @ [next_ref st]),
        next_ref := Suc (next_ref st)\<rparr>"

text \<open>\<open>get_actions\<close>: \<open>self.actions.copy()\<close> allocates a new list with the same elements.\<close>

definition get_actions_st :: "logger_object \<Rightarrow> store \<Rightarrow> ref \<times> store" where
  "get_actions_st lg st =
     (next_ref st,
      st\<lparr>lists := (lists st)(next_ref st \<mapsto> list_at st (lg_actions lg)),
         next_ref := Suc (next_ref st)\<rparr>)"

definition clear_actions_st :: "logger_object \<Rightarrow> store \<Rightarrow> store" where
  "clear_actions_st lg st = st\<lparr>lists := (lists st)(lg_actions lg \<mapsto> [])\<rparr>"

text \<open>
  What a caller holding a list can do to it: the mutating methods of a Python list. An
  index out of range raises and leaves the list as it was; \<open>pop\<close> removes the last
  element.
\<close>

datatype list_mutation =
    Append ref
  | Extend "ref list"
  | Insert nat ref
  | SetItem nat ref
  | DelItem nat
  | Pop
  | Reverse
  | Clear

fun mutate :: "list_mutation \<Rightarrow> ref list \<Rightarrow> ref list" where
  "mutate (Append x) xs = xs @ [x]"
| "mutate (Extend ys) xs = xs @ ys"
| "mutate (Insert i x) xs = take i xs @ x # drop i xs"
| "mutate (SetItem i x) xs = (if i < length xs then xs[i := x] else xs)"
| "mutate (DelItem i) xs = (if i < length xs then take i xs @ drop (Suc i) xs else xs)"
| "mutate Pop xs = butlast xs"
| "mutate Reverse xs = rev xs"
| "mutate Clear xs = []"

definition apply_mutation :: "ref \<Rightarrow> list_mutation \<Rightarrow> store \<Rightarrow> store" where
  "apply_mutation r m st = st\<lparr>lists := (lists st)(r \<mapsto> mutate m (list_at st r))\<rparr>"

text \<open>The entries a list object holds, read through the store.\<close>

definition entries_of :: "store \<Rightarrow> ref \<Rightarrow> action_record option list" where
  "entries_of st r = map (dicts st) (list_at st r)"

text \<open>A logger's list is allocated, and so are the entries it holds.\<close>

definition allocated :: "logger_object \<Rightarrow> store \<Rightarrow> bool" where
  "allocated lg st = (lg_actions lg < next_ref st \<and> list_all (\<lambda>d. d < next_ref st) (list_at st (lg_actions lg)))"

definition empty_store :: store where
  "empty_store = \<lparr>lists = (\<lambda>r. None), dicts = (\<lambda>r. None), next_ref = 0\<rparr>"

text \<open>A logger on which one action has been logged, for concrete runs.\<close>

definition demo_logger :: logger_object where
  "demo_logger = fst (init_logger empty_store)"

definition demo_store :: store where
  "demo_store = log_action_st ''Browser initialized'' True None demo_logger (snd (init_logger empty_store))"

section \<open>LLMService (src/services/llm_service.py)\<close>

subsection \<open>JSON values and dicts\<close>

text \<open>
  What \<open>json.loads\<close> returns (numbers are integers here). A dict is the list of its items
  in insertion order, with distinct keys; \<open>dict_set\<close> is \<open>d[k] = v\<close>.
\<close>

datatype json = JNull | JBool bool | JNum int | JStr string | JArr "json list" | JObj "(string \<times> json) list"

type_synonym dict = "(string \<times> json) list"

fun dict_set :: "string \<Rightarrow> json \<Rightarrow> dict \<Rightarrow> dict" where
  "dict_set k v [] = [(k, v)]"
| "dict_set k v ((k', v') # kvs) = (if k' = k then (k, v) # kvs else (k', v') # dict_set k v kvs)"

definition dict_get :: "dict \<Rightarrow> string \<Rightarrow> json option" where
  "dict_get d k = map_of d k"

text \<open>The dict of a parsed JSON object: a key given twice keeps its last value.\<close>

definition dict_of_items :: "(string \<times> json) list \<Rightarrow> dict" where
  "dict_of_items kvs = fold (\<lambda>(k, v). dict_set k v) kvs []"

text \<open>Python's truth value of a JSON value.\<close>

fun truthy :: "json \<Rightarrow> bool" where
  "truthy JNull = False"
| "truthy (JBool b) = b"
| "truthy (JNum n) = (n \<noteq> 0)"
| "truthy (JStr s) = (s \<noteq> [])"
| "truthy (JArr xs) = (xs \<noteq> [])"
| "truthy (JObj kvs) = (kvs \<noteq> [])"

subsection \<open>The regular expression for e-mail addresses\<close>

text \<open>
  The pattern of \<open>re.findall\<close> in \<open>_validate_task_info\<close> and \<open>_fallback_parsing\<close> is
  \<^verbatim>\<open>\b[A-Za-z0-9._%+-]+@[A-Za-z0-9.-]+\.[A-Z|a-z]{2,}\b\<close>. A pattern is a sequence of
  items: a word boundary, a literal character, or a character class repeated greedily at
  least \<open>n\<close> times. A class is the list of the ranges between its brackets.
\<close>

type_synonym char_class = "(char \<times> char) list"

datatype item = WordBoundary | Lit char | Rep char_class nat

definition in_class :: "char_class \<Rightarrow> char \<Rightarrow> bool" where
  "in_class cls c =
     list_ex (\<lambda>(lo, hi). (of_char lo :: nat) \<le> of_char c \<and> (of_char c :: nat) \<le> of_char hi) cls"

definition local_class :: char_class where
  "local_class = [(CHR ''A'', CHR ''Z''), (CHR ''a'', CHR ''z''), (CHR ''0'', CHR ''9''),
                  (CHR ''.'', CHR ''.''), (CHR ''_'', CHR ''_''), (CHR ''%'', CHR ''%''),
                  (CHR ''+'', CHR ''+''), (CHR ''-'', CHR ''-'')]"

definition domain_class :: char_class where
  "domain_class = [(CHR ''A'', CHR ''Z''), (CHR ''a'', CHR ''z''), (CHR ''0'', CHR ''9''),
                   (CHR ''.'', CHR ''.''), (CHR ''-'', CHR ''-'')]"

definition tld_class :: char_class where
  "tld_class = [(CHR ''A'', CHR ''Z''), (CHR ''|'', CHR ''|''), (CHR ''a'', CHR ''z'')]"

definition email_pattern :: "item list" where
  "email_pattern =
     [WordBoundary, Rep local_class 1, Lit (CHR ''@''), Rep domain_class 1, Lit (CHR ''.''),
      Rep tld_class 2, WordBoundary]"

text \<open>
  \<open>\w\<close> of a \<open>str\<close> pattern on the code points below 256: letters, digits, the underscore,
  and the alphanumeric characters of Latin-1.
\<close>

definition is_word :: "char \<Rightarrow> bool" where
  "is_word c =
     (let n = (of_char c :: nat)
      in (48 \<le> n \<and> n \<le> 57) \<or> (65 \<le> n \<and> n \<le> 90) \<or> n = 95 \<or> (97 \<le> n \<and> n \<le> 122)
         \<or> n = 170 \<or> n = 178 \<or> n = 179 \<or> n = 181 \<or> n = 185 \<or> n = 186
         \<or> (188 \<le> n \<and> n \<le> 190) \<or> (192 \<le> n \<and> n \<le> 214) \<or> (216 \<le> n \<and> n \<le> 246)
         \<or> (248 \<le> n \<and> n \<le> 255))"

text \<open>
  \<open>\b\<close> between the character before the position (\<open>None\<close> at the start of the string)
  and the rest of the string: exactly one side is a word character.
\<close>

definition at_boundary :: "char option \<Rightarrow> string \<Rightarrow> bool" where
  "at_boundary prev s =
     ((case prev of None \<Rightarrow> False | Some c \<Rightarrow> is_word c)
      \<noteq> (case s of [] \<Rightarrow> False | c # cs \<Rightarrow> is_word c))"

fun first_some :: "'a option list \<Rightarrow> 'a option" where
  "first_some [] = None"
| "first_some (None # xs) = first_some xs"
| "first_some (Some x # xs) = Some x"

text \<open>The character before the position reached after \<open>j\<close> more characters of \<open>s\<close>.\<close>

definition prev_after :: "char option \<Rightarrow> string \<Rightarrow> nat \<Rightarrow> char option" where
  "prev_after prev s j = (if j = 0 \<or> length s < j then prev else Some (s ! (j - 1)))"

text \<open>
  The backtracking matcher at one position: the length of the match the engine finds
  first. A repetition takes as many characters as it can and gives them back one by one
  while the rest of the pattern fails.
\<close>

fun match_here :: "item list \<Rightarrow> char option \<Rightarrow> string \<Rightarrow> nat option" where
  "match_here [] prev s = Some 0"
| "match_here (WordBoundary # items) prev s =
     (if at_boundary prev s then match_here items prev s else None)"
| "match_here (Lit c # items) prev s =
     (case s of
        [] \<Rightarrow> None
      | x # xs \<Rightarrow> if x = c then map_option Suc (match_here items (Some x) xs) else None)"
| "match_here (Rep cls n # items) prev s =
     first_some
       (map (\<lambda>j. map_option (\<lambda>m. j + m) (match_here items (prev_after prev s j) (drop j s)))
            (rev [n ..< Suc (length (takeWhile (in_class cls) s))]))"

text \<open>
  \<open>re.findall\<close>: the matches from left to right, each search starting where the match
  before ended.
\<close>

fun findall_from :: "item list \<Rightarrow> char option \<Rightarrow> string \<Rightarrow> string list" where
  "findall_from p prev [] = (case match_here p prev [] of Some m \<Rightarrow> [[]] | None \<Rightarrow> [])"
| "findall_from p prev (c # cs) =
     (case match_here p prev (c # cs) of
        None \<Rightarrow> findall_from p (Some c) cs
      | Some 0 \<Rightarrow> [] # findall_from p (Some c) cs
      | Some (Suc m) \<Rightarrow>
          (c # take m cs) # findall_from p (prev_after (Some c) cs m) (drop m cs))"

definition findall :: "item list \<Rightarrow> string \<Rightarrow> string list" where
  "findall p s = findall_from p None s"

subsection \<open>Subjects\<close>

text \<open>The characters \<open>str.split()\<close> splits at, among the code points below 256.\<close>

definition is_space :: "char \<Rightarrow> bool" where
  "is_space c =
     (let n = (of_char c :: nat)
      in (9 \<le> n \<and> n \<le> 13) \<or> (28 \<le> n \<and> n \<le> 32) \<or> n = 133 \<or> n = 160)"

text \<open>\<open>str.split()\<close>; \<open>cur\<close> is the word being read, reversed.\<close>

fun split_acc :: "string \<Rightarrow> string \<Rightarrow> string list" where
  "split_acc cur [] = (if cur = [] then [] else [rev cur])"
| "split_acc cur (c # cs) =
     (if is_space c then (if cur = [] then split_acc [] cs else rev cur # split_acc [] cs)
      else split_acc (c # cur) cs)"

definition split :: "string \<Rightarrow> string list" where
  "split s = split_acc [] s"

fun join :: "string \<Rightarrow> string list \<Rightarrow> string" where
  "join sep [] = []"
| "join sep [w] = w"
| "join sep (w # ws) = w @ sep @ join sep ws"

definition generate_subject :: "string \<Rightarrow> string" where
  "generate_subject content_text =
     (let words = take 5 (split content_text);
          subject = join '' '' words
      in if length subject > 50 then take 47 subject @ ''...'' else subject)"

subsection \<open>Task information\<close>

definition defaults :: dict where
  "defaults =
     [(''task_type'', JStr ''email''), (''action'', JStr ''send''), (''recipients'', JArr []),
      (''subject'', JStr []), (''content'', JStr []), (''attachments'', JArr []),
      (''provider_preference'', JStr ''auto''), (''urgency'', JStr ''medium''),
      (''additional_context'', JStr [])]"

definition fill_defaults :: "dict \<Rightarrow> dict" where
  "fill_defaults task_info =
     fold (\<lambda>(key, default_value) d. if dict_get d key = None then dict_set key default_value d else d)
          defaults task_info"

definition clean_recipients :: "dict \<Rightarrow> dict" where
  "clean_recipients task_info =
     (case dict_get task_info ''recipients'' of
        Some (JStr s) \<Rightarrow> dict_set ''recipients'' (JArr (map JStr (findall email_pattern s))) task_info
      | _ \<Rightarrow> task_info)"

text \<open>
  \<open>_validate_task_info\<close> on the value parsed from the model's reply. A value that is not
  a dict makes the loop over the defaults raise; a content that is true but not a string
  has no \<open>split\<close>.
\<close>

definition validate_task_info :: "json \<Rightarrow> exn + dict" where
  "validate_task_info j =
     (case j of
        JObj kvs \<Rightarrow>
          (let task_info = clean_recipients (fill_defaults (dict_of_items kvs))
           in case (dict_get task_info ''subject'', dict_get task_info ''content'') of
                (Some subject, Some content_value) \<Rightarrow>
                  if \<not> truthy subject \<and> truthy content_value then
                    (case content_value of
                       JStr c \<Rightarrow> Inr (dict_set ''subject'' (JStr (generate_subject c)) task_info)
                     | _ \<Rightarrow> Inl ''AttributeError: object has no attribute split'')
                  else Inr task_info
              | _ \<Rightarrow> Inl ''KeyError'')
      | _ \<Rightarrow> Inl ''TypeError: task_info is not a dict'')"

definition fallback_parsing :: "string \<Rightarrow> dict" where
  "fallback_parsing instruction =
     [(''task_type'', JStr ''email''), (''action'', JStr ''send''),
      (''recipients'', JArr (map JStr (findall email_pattern instruction))),
      (''subject'', JStr ''Message from automation system''), (''content'', JStr instruction),
      (''attachments'', JArr []), (''provider_preference'', JStr ''auto''),
      (''urgency'', JStr ''medium''), (''additional_context'', JStr [])]"

text \<open>
  \<open>interpret_instruction\<close>. The parameter \<open>reply\<close> is \<open>json.loads(self._call_llm(prompt))\<close>
  for the prompt built from the instruction: the parsed value, or the exception of the
  call or of the parser. Both \<open>except\<close> clauses return the fallback.
\<close>

definition interpret_instruction :: "(string \<Rightarrow> exn + json) \<Rightarrow> string \<Rightarrow> dict" where
  "interpret_instruction reply instruction =
     (case reply instruction of
        Inl e \<Rightarrow> fallback_parsing instruction
      | Inr j \<Rightarrow>
          (case validate_task_info j of
             Inl e \<Rightarrow> fallback_parsing instruction
           | Inr result \<Rightarrow> result))"

text \<open>
  \<open>_call_llm\<close> as it stands returns \<open>_get_mock_response(prompt)\<close>; the prompt of
  \<open>interpret_instruction\<close> contains the word \<open>interpret\<close>, so the reply is this object.
\<close>

definition mock_reply :: "string \<Rightarrow> exn + json" where
  "mock_reply instruction =
     Inr (JObj [(''task_type'', JStr ''email''), (''action'', JStr ''send''),
                (''recipients'', JArr [JStr ''demo@example.com'']),
                (''subject'', JStr ''Test email from automation''),
                (''content'', JStr ''This is a test email from the automation system''),
                (''attachments'', JArr []), (''provider_preference'', JStr ''auto''),
                (''urgency'', JStr ''medium''), (''additional_context'', JStr [])])"

text \<open>A reply for concrete runs: a task with an empty subject.\<close>

definition subjectless_reply :: "string \<Rightarrow> exn + json" where
  "subjectless_reply instruction =
     Inr (JObj [(''subject'', JStr []), (''content'', JStr ''Meeting at 2pm in room 5 today'')])"

section \<open>Config (src/core/config.py)\<close>

text \<open>
  The fields of \<open>Config\<close> that \<open>validate\<close> and the provider methods read: the API key is a
  \<open>str\<close>, each credential an \<open>Optional[str]\<close>.
\<close>

record config =
  openai_api_key :: string
  gmail_email :: "string option"
  gmail_password :: "string option"
  outlook_email :: "string option"
  outlook_password :: "string option"

text \<open>Truth value of an \<open>Optional[str]\<close>: \<open>None\<close> and the empty string are false.\<close>

definition truthy_str :: "string option \<Rightarrow> bool" where
  "truthy_str s = (case s of None \<Rightarrow> False | Some x \<Rightarrow> x \<noteq> [])"

text \<open>\<open>validate\<close>: \<open>Some e\<close> when it raises the \<open>ValueError\<close> with message \<open>e\<close>.\<close>

definition validate :: "config \<Rightarrow> exn option" where
  "validate cfg =
     (if openai_api_key cfg = [] then Some ''OpenAI API key is required''
      else if \<not> (truthy_str (gmail_email cfg) \<and> truthy_str (gmail_password cfg))
              \<and> \<not> (truthy_str (outlook_email cfg) \<and> truthy_str (outlook_password cfg))
      then Some ''At least one email provider must be configured''
      else None)"

definition get_available_providers :: "config \<Rightarrow> string list" where
  "get_available_providers cfg =
     (if truthy_str (gmail_email cfg) \<and> truthy_str (gmail_password cfg) then [''gmail''] else [])
     @ (if truthy_str (outlook_email cfg) \<and> truthy_str (outlook_password cfg) then [''outlook''] else [])"

definition is_provider_configured :: "config \<Rightarrow> string \<Rightarrow> bool" where
  "is_provider_configured cfg provider = (provider \<in> set (get_available_providers cfg))"

record credentials =
  cr_email :: "string option"
  cr_password :: "string option"


section \<open>ProviderAdapter (src/providers/base_provider.py)\<close>

text \<open>
  The dict a provider returns: \<open>success\<close> is always present, the other keys may be absent.
\<close>

record task_result =
  r_success :: bool
  r_error :: "string option"
  r_message :: "string option"
  r_provider :: "string option"

text \<open>
  The two subclasses of the repository. \<open>get_provider_name\<close> is the class name in lower
  case with \<open>adapter\<close> removed.
\<close>

datatype adapter_class = GmailAdapter | OutlookAdapter


text \<open>
  The abstract methods \<open>login\<close> and \<open>send_email\<close> are fields of the adapter: each takes the
  state \<open>'s\<close> of the browser session and returns what the call did, a value or an
  exception, with the state after it. \<open>'t\<close> is the type of the task.
\<close>

record ('s, 't) adapter =
  ad_class :: adapter_class
  login :: "credentials \<Rightarrow> 's \<Rightarrow> (exn + bool) \<times> 's"
  send_email :: "'t \<Rightarrow> 's \<Rightarrow> (exn + task_result) \<times> 's"




subsection \<open>Observing the calls made on an adapter\<close>



text \<open>
  A configuration and adapters for concrete runs: the state counts the calls; one login
  is refused, one raises, one is accepted.
\<close>

definition demo_cfg :: config where
  "demo_cfg = \<lparr>openai_api_key = ''sk-test'',
               gmail_email = Some ''me@gmail.com'', gmail_password = Some ''secret'',
               outlook_email = None, outlook_password = None\<rparr>"





section \<open>GenericUIAgent (src/core/agent.py)\<close>

text \<open>
  The dict \<open>execute\<close> returns: the provider's result with the keys the agent adds. The
  \<open>duration\<close> key (wall-clock time) is left out.
\<close>

record exec_result = task_result +
  r_task_type :: "json option"
  r_actions :: "action_record list option"
  r_warnings :: "string list option"

text \<open>
  The calls the agent makes on the browser session: the constructor \<open>BrowserManager(config)\<close>
  returned, \<open>start()\<close> was called, \<open>stop()\<close> was called.
\<close>

datatype session_call = Create | Start | Stop

text \<open>
  The agent's state: \<open>self.config\<close>, its ActionLogger, whether \<open>self.browser_manager\<close>
  holds a manager, the keys of \<open>self.providers\<close>, and the calls made on the session so
  far.
\<close>

record agent =
  ag_config :: config
  ag_logger :: action_logger
  ag_browser :: bool
  ag_providers :: "string list"
  ag_calls :: "session_call list"

text \<open>
  \<open>__init__\<close>: the constructor sets the attributes and calls \<open>config.validate()\<close>, whose
  \<open>ValueError\<close> it raises again; \<open>Inl e\<close> is that exception, and then there is no agent.
\<close>

definition new_agent :: "config \<Rightarrow> exn + agent" where
  "new_agent cfg =
     (case validate cfg of
        Some e \<Rightarrow> Inl e
      | None \<Rightarrow> Inr \<lparr>ag_config = cfg, ag_logger = new_action_logger, ag_browser = False,
                      ag_providers = [], ag_calls = []\<rparr>)"

text \<open>
  What the agent's collaborators do in one run: \<open>env_reply\<close> is
  \<open>json.loads(self._call_llm(prompt))\<close> of the LLM service, as in \<open>interpret_instruction\<close>;
  whether the constructor of the BrowserManager and its \<open>start\<close> raise, whether the
  constructor of an adapter raises, what the adapter's \<open>execute_task\<close> does, and Python's
  \<open>str\<close> of a JSON value.
\<close>

record env =
  env_reply :: "string \<Rightarrow> exn + json"
  env_new_browser :: "exn option"
  env_start :: "exn option"
  env_new_adapter :: "string \<Rightarrow> exn option"
  env_execute_task :: "string \<Rightarrow> dict \<Rightarrow> exn + task_result"
  env_str :: "json \<Rightarrow> string"

definition ag_log :: "(action_logger \<Rightarrow> action_logger) \<Rightarrow> agent \<Rightarrow> agent" where
  "ag_log f ag = ag\<lparr>ag_logger := f (ag_logger ag)\<rparr>"

definition str_of :: "env \<Rightarrow> json option \<Rightarrow> string" where
  "str_of env v = (case v of None \<Rightarrow> ''None'' | Some j \<Rightarrow> env_str env j)"

definition create_error_result :: "string \<Rightarrow> agent \<Rightarrow> exec_result" where
  "create_error_result error_message ag =
     \<lparr>r_success = False, r_error = Some error_message, r_message = None, r_provider = None,
      r_task_type = None, r_actions = Some (get_actions (ag_logger ag)),
      r_warnings = Some [error_message]\<rparr>"

text \<open>
  \<open>_interpret_instruction\<close>. The LLM service's \<open>interpret_instruction\<close> catches every
  exception of its own and returns the fallback, so the \<open>except\<close> clause here is not
  reached.
\<close>

definition agent_interpret_instruction :: "env \<Rightarrow> string \<Rightarrow> agent \<Rightarrow> dict option \<times> agent" where
  "agent_interpret_instruction env instruction ag =
     (let ag1 = ag_log (log_step ''Interpreting instruction'' None) ag;
          task_info = interpret_instruction (env_reply env) instruction
      in (Some task_info,
          ag_log (log_action ''Instruction interpreted'' True
                    (Some (''Task type: '' @ str_of env (dict_get task_info ''task_type'')))) ag1))"

text \<open>The end of \<open>_select_provider\<close>, from \<open>if selected:\<close> on.\<close>

definition provider_selected :: "string option \<Rightarrow> agent \<Rightarrow> string option \<times> agent" where
  "provider_selected selected ag =
     (case selected of
        Some name \<Rightarrow>
          if name \<noteq> [] then
            (Some name, ag_log (log_action ''Provider selected'' True (Some (''Selected: '' @ name))) ag)
          else (None, ag_log (log_error ''No suitable provider found'' None) ag)
      | None \<Rightarrow> (None, ag_log (log_error ''No suitable provider found'' None) ag))"

text \<open>\<open>available_providers[0] if available_providers else None\<close>\<close>

definition first_available :: "string list \<Rightarrow> string option" where
  "first_available available_providers =
     (case available_providers of [] \<Rightarrow> None | p # ps \<Rightarrow> Some p)"

definition select_provider :: "env \<Rightarrow> dict \<Rightarrow> agent \<Rightarrow> string option \<times> agent" where
  "select_provider env task_info ag =
     (let ag1 = ag_log (log_step ''Selecting provider'' None) ag;
          preference = (case dict_get task_info ''provider_preference'' of
                          None \<Rightarrow> JStr ''auto'' | Some v \<Rightarrow> v);
          available_providers = get_available_providers (ag_config ag)
      in if preference = JStr ''auto'' then
           (if available_providers = [] then
              (None, ag_log (log_error ''No providers configured'' None) ag1)
            else if ''gmail'' \<in> set available_providers then provider_selected (Some ''gmail'') ag1
            else provider_selected (first_available available_providers) ag1)
         else if preference = JStr ''gmail'' \<or> preference = JStr ''outlook'' then
           (case preference of
              JStr name \<Rightarrow>
                if is_provider_configured (ag_config ag) name then provider_selected (Some name) ag1
                else provider_selected (first_available available_providers)
                       (ag_log (log_warning (''Preferred provider '' @ [CHR 0x27] @ name @ [CHR 0x27]
                                             @ '' not configured'')) ag1)
            | _ \<Rightarrow> (None, ag1))
         else (None, ag_log (log_error (''Unknown provider preference: '' @ env_str env preference) None)
                       ag1))"

text \<open>
  \<open>_initialize_browser\<close>: \<open>Some e\<close> when it raises \<open>e\<close>. The manager is assigned to
  \<open>self.browser_manager\<close> before \<open>start\<close> is called.
\<close>

definition initialize_browser :: "env \<Rightarrow> agent \<Rightarrow> exn option \<times> agent" where
  "initialize_browser env ag =
     (let ag1 = ag_log (log_step ''Initializing browser'' None) ag
      in case env_new_browser env of
           Some e \<Rightarrow> (Some e, ag_log (log_error ''Browser initialization failed'' (Some e)) ag1)
         | None \<Rightarrow>
             (let ag2 = ag1\<lparr>ag_browser := True, ag_calls := ag_calls ag1 @ [Create, Start]\<rparr>
              in case env_start env of
                   Some e \<Rightarrow> (Some e, ag_log (log_error ''Browser initialization failed'' (Some e)) ag2)
                 | None \<Rightarrow> (None, ag_log (log_action ''Browser initialized'' True None) ag2)))"

text \<open>\<open>_get_provider_adapter\<close>: whether an adapter is returned.\<close>

definition get_provider_adapter :: "env \<Rightarrow> string \<Rightarrow> agent \<Rightarrow> bool \<times> agent" where
  "get_provider_adapter env provider_name ag =
     (if provider_name \<in> set (ag_providers ag) then (True, ag)
      else if provider_name = ''gmail'' \<or> provider_name = ''outlook'' then
        (case env_new_adapter env provider_name of
           None \<Rightarrow> (True, ag\<lparr>ag_providers := ag_providers ag @ [provider_name]\<rparr>)
         | Some e \<Rightarrow>
             (False, ag_log (log_error (''Failed to create '' @ provider_name @ '' adapter'') (Some e)) ag))
      else (False, ag_log (log_error (''Unknown provider: '' @ provider_name) None) ag))"

definition as_exec_result :: "task_result \<Rightarrow> exec_result" where
  "as_exec_result r =
     \<lparr>r_success = r_success r, r_error = r_error r, r_message = r_message r,
      r_provider = r_provider r, r_task_type = None, r_actions = None, r_warnings = None\<rparr>"

definition agent_execute_task :: "env \<Rightarrow> string \<Rightarrow> dict \<Rightarrow> agent \<Rightarrow> exec_result \<times> agent" where
  "agent_execute_task env provider_name task_info ag =
     (let ag1 = ag_log (log_step (''Executing task with '' @ provider_name) None) ag;
          (provider, ag2) = get_provider_adapter env provider_name ag1
      in if \<not> provider then
           (create_error_result (''Failed to create provider adapter for '' @ provider_name) ag2, ag2)
         else
           (case env_execute_task env provider_name task_info of
              Inl e \<Rightarrow>
                (let ag3 = ag_log (log_error ''Task execution failed'' (Some e)) ag2
                 in (create_error_result e ag3, ag3))
            | Inr result \<Rightarrow>
                (as_exec_result result,
                 if r_success result then
                   ag_log (log_success (''Task completed successfully with '' @ provider_name)) ag2
                 else
                   ag_log (log_error (''Task failed with '' @ provider_name @ '': ''
                                      @ (case r_error result of None \<Rightarrow> ''None'' | Some e \<Rightarrow> e)) None)
                     ag2)))"

text \<open>\<open>_cleanup_browser\<close>; \<open>BrowserManager.stop\<close> catches its exceptions.\<close>

definition cleanup_browser :: "agent \<Rightarrow> agent" where
  "cleanup_browser ag =
     (if ag_browser ag then
        ag_log (log_action ''Browser cleanup completed'' True None)
          (ag\<lparr>ag_calls := ag_calls ag @ [Stop], ag_browser := False\<rparr>)
      else ag)"

text \<open>
  The \<open>try\<close> block of \<open>execute\<close> with its \<open>except\<close> clause: the result returned and the
  agent before the \<open>finally\<close> clause runs. The message of the last \<open>log_success\<close> holds
  the duration, which is left out.
\<close>

definition execute_body :: "env \<Rightarrow> string \<Rightarrow> agent \<Rightarrow> exec_result \<times> agent" where
  "execute_body env instruction ag =
     (let ag1 = ag_log (log_step ''Starting instruction execution'' (Some instruction)) ag
      in case agent_interpret_instruction env instruction ag1 of
           (None, ag2) \<Rightarrow> (create_error_result ''Failed to interpret instruction'' ag2, ag2)
         | (Some task_info, ag2) \<Rightarrow>
             if task_info = [] then (create_error_result ''Failed to interpret instruction'' ag2, ag2)
             else
               (case select_provider env task_info ag2 of
                  (None, ag3) \<Rightarrow> (create_error_result ''No suitable provider available'' ag3, ag3)
                | (Some provider, ag3) \<Rightarrow>
                    (case initialize_browser env ag3 of
                       (Some e, ag4) \<Rightarrow>
                         (let ag5 = ag_log (log_error ''Task execution failed'' (Some e)) ag4
                          in (\<lparr>r_success = False, r_error = Some e, r_message = None,
                               r_provider = None, r_task_type = None,
                               r_actions = Some (get_actions (ag_logger ag5)),
                               r_warnings = Some [''Task execution failed with exception'']\<rparr>, ag5))
                     | (None, ag4) \<Rightarrow>
                         (let (result, ag5) = agent_execute_task env provider task_info ag4;
                              result1 = result\<lparr>r_task_type :=
                                                  Some (case dict_get task_info ''task_type'' of
                                                          None \<Rightarrow> JStr ''unknown'' | Some v \<Rightarrow> v),
                                                r_actions := Some (get_actions (ag_logger ag5))\<rparr>
                          in (result1, ag_log (log_success ''Task completed'') ag5)))))"

text \<open>\<open>execute\<close>: the \<open>finally\<close> clause runs on every path.\<close>

definition execute :: "env \<Rightarrow> string \<Rightarrow> agent \<Rightarrow> exec_result \<times> agent" where
  "execute env instruction ag =
     (let (result, ag1) = execute_body env instruction ag
      in (result, cleanup_browser ag1))"

subsection \<open>Observations on a run\<close>

text \<open>The warnings and the error messages among the lines a logger emitted.\<close>

fun warning_texts :: "log_line list \<Rightarrow> string list" where
  "warning_texts [] = []"
| "warning_texts (WarningLine m # ls) = m # warning_texts ls"
| "warning_texts (l # ls) = warning_texts ls"

definition ag_warnings :: "agent \<Rightarrow> string list" where
  "ag_warnings ag = warning_texts (emitted (ag_logger ag))"

fun error_texts :: "log_line list \<Rightarrow> string list" where
  "error_texts [] = []"
| "error_texts (ErrorLine m e # ls) = m # error_texts ls"
| "error_texts (l # ls) = error_texts ls"

definition ag_errors :: "agent \<Rightarrow> string list" where
  "ag_errors ag = error_texts (emitted (ag_logger ag))"

text \<open>
  The provider a run selects: \<open>None\<close> when the interpretation returns nothing or an empty
  dict, or when no provider is selected.
\<close>

definition run_selects :: "env \<Rightarrow> string \<Rightarrow> agent \<Rightarrow> string option" where
  "run_selects env instruction ag =
     (case agent_interpret_instruction env instruction
             (ag_log (log_step ''Starting instruction execution'' (Some instruction)) ag) of
        (None, ag2) \<Rightarrow> None
      | (Some task_info, ag2) \<Rightarrow>
          if task_info = [] then None else fst (select_provider env task_info ag2))"

text \<open>The agent in which \<open>execute\<close> calls \<open>_select_provider\<close>.\<close>

definition interpreted :: "env \<Rightarrow> string \<Rightarrow> agent \<Rightarrow> agent" where
  "interpreted env instruction ag =
     snd (agent_interpret_instruction env instruction
            (ag_log (log_step ''Starting instruction execution'' (Some instruction)) ag))"

text \<open>The preference \<open>_select_provider\<close> reads from the task: \<open>auto\<close> when the key is absent.\<close>

definition preference_of :: "dict \<Rightarrow> json" where
  "preference_of task_info =
     (case dict_get task_info ''provider_preference'' of None \<Rightarrow> JStr ''auto'' | Some v \<Rightarrow> v)"

definition unmet_warning :: "string \<Rightarrow> string" where
  "unmet_warning name = ''Preferred provider '' @ [CHR 0x27] @ name @ [CHR 0x27] @ '' not configured''"

subsection \<open>Environments for concrete runs\<close>

definition str_plain :: "json \<Rightarrow> string" where
  "str_plain j = (case j of JStr s \<Rightarrow> s | JNum n \<Rightarrow> str_int n | JBool b \<Rightarrow> (if b then ''True'' else ''False'')
                  | JNull \<Rightarrow> ''None'' | _ \<Rightarrow> ''...'')"

definition sent_ok :: task_result where
  "sent_ok = \<lparr>r_success = True, r_error = None, r_message = Some ''Email sent successfully'',
              r_provider = Some ''gmail''\<rparr>"

text \<open>The model is the stub of the repository, and every collaborator succeeds.\<close>

definition demo_env :: env where
  "demo_env =
     \<lparr>env_reply = mock_reply,
      env_new_browser = None, env_start = None,
      env_new_adapter = (\<lambda>name. None),
      env_execute_task = (\<lambda>name task_info. Inr sent_ok),
      env_str = str_plain\<rparr>"

text \<open>
  The same, but the constructor of the BrowserManager raises: \<open>screenshots\<close> exists and is
  not a directory, so \<open>mkdir(exist_ok=True)\<close> fails.
\<close>

definition no_directory_env :: env where
  "no_directory_env = demo_env\<lparr>env_new_browser := Some ''[Errno 17] File exists: screenshots''\<rparr>"

text \<open>The same as \<open>demo_env\<close>, but \<open>start\<close> raises: the browser cannot be launched.\<close>

definition no_launch_env :: env where
  "no_launch_env = demo_env\<lparr>env_start := Some ''Executable does not exist''\<rparr>"

text \<open>A model whose reply names a provider the agent does not know.\<close>

definition yahoo_reply :: "string \<Rightarrow> exn + json" where
  "yahoo_reply instruction =
     Inr (JObj [(''task_type'', JStr ''email''), (''action'', JStr ''send''),
                (''recipients'', JArr [JStr ''alice@example.com'']),
                (''subject'', JStr ''Hello''), (''content'', JStr ''Hello''),
                (''provider_preference'', JStr ''yahoo'')])"

definition yahoo_env :: env where
  "yahoo_env = demo_env\<lparr>env_reply := yahoo_reply\<rparr>"

text \<open>
  The agent the constructor returns for \<open>demo_cfg\<close>, where only Gmail is configured, and
  for \<open>both_cfg\<close>.
\<close>

definition both_cfg :: config where
  "both_cfg = \<lparr>openai_api_key = ''sk-test'',
               gmail_email = Some ''me@gmail.com'', gmail_password = Some ''secret'',
               outlook_email = Some ''me@outlook.com'', outlook_password = Some ''secret''\<rparr>"

definition demo_agent :: agent where
  "demo_agent = \<lparr>ag_config = demo_cfg, ag_logger = new_action_logger, ag_browser = False,
                 ag_providers = [], ag_calls = []\<rparr>"

definition both_agent :: agent where
  "both_agent = \<lparr>ag_config = both_cfg, ag_logger = new_action_logger, ag_browser = False,
                 ag_providers = [], ag_calls = []\<rparr>"

text \<open>A configuration with the API key and no provider.\<close>

definition no_provider_cfg :: config where
  "no_provider_cfg = \<lparr>openai_api_key = ''sk-test'', gmail_email = None, gmail_password = None,
                       outlook_email = None, outlook_password = None\<rparr>"

text \<open>
  The agent holds the \<open>Config\<close> object by reference, and the object can be assigned to:
  the agent after its caller has set the four credentials of the object to \<open>None\<close>.
\<close>

definition clear_credentials :: "agent \<Rightarrow> agent" where
  "clear_credentials ag =
     ag\<lparr>ag_config := (ag_config ag)\<lparr>gmail_email := None, gmail_password := None,
                                      outlook_email := None, outlook_password := None\<rparr>\<rparr>"

section \<open>Properties of the BrowserManager\<close>

subsection \<open>What the logging calls do to a manager\<close>

lemma step_texts_append: "step_texts (xs @ ys) = step_texts xs @ step_texts ys"
  by (induction xs rule: step_texts.induct) auto

lemma bm_steps_log [simp]:
  "bm_steps (bm_log (log_step s d) bm) = bm_steps bm @ [s]"
  "bm_steps (bm_log (log_action a b c) bm) = bm_steps bm"
  "bm_steps (bm_log (log_raw lv m) bm) = bm_steps bm"
  "bm_steps (bm\<lparr>page := w\<rparr>) = bm_steps bm"
  by (simp_all add: bm_steps_def bm_log_def log_step_def log_action_def log_raw_def step_texts_append)

lemma bm_actions_log [simp]:
  "bm_actions (bm_log (log_step s d) bm) = bm_actions bm"
  "bm_actions (bm_log (log_action a b c) bm) =
     bm_actions bm @ [\<lparr>ar_action = a, ar_success = b, ar_details = c\<rparr>]"
  "bm_actions (bm_log (log_raw lv m) bm) = bm_actions bm"
  "bm_actions (bm\<lparr>page := w\<rparr>) = bm_actions bm"
  by (simp_all add: bm_actions_def bm_log_def log_step_def log_action_def log_raw_def)

lemma page_bm_log [simp]: "page (bm_log f bm) = page bm"
  by (simp add: bm_log_def)

subsection \<open>One attempt of \<open>click_element\<close>\<close>

lemma try_click_None:
  assumes "try_click ops sel bm = (None, bm')"
  shows "click_outcome ops sel (page bm) = None"
    and "bm_steps bm' = bm_steps bm @ [attempt_text sel]"
    and "bm_actions bm' = bm_actions bm @
           [\<lparr>ar_action = ''Clicked element: '' @ sel, ar_success = True, ar_details = None\<rparr>]"
  using assms
  by (auto simp: try_click_def click_outcome_def attempt_text_def Let_def
           split: prod.splits option.splits)

lemma try_click_Some:
  assumes "try_click ops sel bm = (Some e, bm')"
  shows "click_outcome ops sel (page bm) = Some e"
    and "bm_steps bm' = bm_steps bm @ [attempt_text sel]"
    and "bm_actions bm' = bm_actions bm"
  using assms
  by (auto simp: try_click_def click_outcome_def attempt_text_def Let_def
           split: prod.splits option.splits)

lemma try_click_cases:
  obtains (ok) bm1 where "try_click ops sel bm = (None, bm1)" "click_outcome ops sel (page bm) = None"
    | (fail) e bm1 where "try_click ops sel bm = (Some e, bm1)" "click_outcome ops sel (page bm) = Some e"
proof (cases "try_click ops sel bm")
  case (Pair r bm1)
  show ?thesis
  proof (cases r)
    case None
    with Pair try_click_None(1)[of ops sel bm bm1] ok show ?thesis by simp
  next
    case (Some e)
    with Pair try_click_Some(1)[of ops sel bm e bm1] fail show ?thesis by simp
  qed
qed

lemma try_click_attempt:
  "try_click ops sel bm = (r, bm1) \<Longrightarrow> click_attempt ops sel (page bm) = (r, page bm1)"
  by (auto simp: try_click_def click_attempt_def Let_def split: prod.splits option.splits)

subsection \<open>The fallback loop of \<open>click_element\<close>\<close>

text \<open>
  Whatever the page does, the loop attempts a non-empty prefix of the candidates in their
  order: all but the last attempted fail, each in the world the attempt before left; the
  result, the world and the one action record appended are those of the last attempt.
\<close>

lemma click_loop_shape:
  assumes "cands \<noteq> []" and "click_loop ops cands bm = (res, bm')"
  shows "\<exists>n w. 1 \<le> n \<and> n \<le> length cands
           \<and> fail_all ops (take (n - 1) cands) (page bm) = Some w
           \<and> page bm' = snd (click_attempt ops (cands ! (n - 1)) w)
           \<and> res = (fst (click_attempt ops (cands ! (n - 1)) w) = None)
           \<and> (\<not> res \<longrightarrow> n = length cands)
           \<and> bm_steps bm' = bm_steps bm @ map attempt_text (take n cands)
           \<and> bm_actions bm' = bm_actions bm @
                [\<lparr>ar_action = (if res then ''Clicked element: '' else ''Click element: '') @ cands ! (n - 1),
                  ar_success = res,
                  ar_details = fst (click_attempt ops (cands ! (n - 1)) w)\<rparr>]"
  using assms
proof (induction cands arbitrary: bm)
  case Nil
  then show ?case by simp
next
  case (Cons c rest)
  obtain r bm1 where t: "try_click ops c bm = (r, bm1)" by (cases "try_click ops c bm")
  note att = try_click_attempt[OF t]
  show ?case
  proof (cases r)
    case None
    with Cons.prems t have "res" "bm' = bm1" by auto
    with try_click_None[OF t[unfolded None]] att None show ?thesis
      by (intro exI[of _ 1] exI[of _ "page bm"]) simp
  next
    case (Some e)
    note eff = try_click_Some[OF t[unfolded Some]]
    show ?thesis
    proof (cases "rest = []")
      case True
      with Cons.prems t Some
      have "\<not> res" "bm' = bm_log (log_action (''Click element: '' @ c) False (Some e)) bm1"
        by auto
      with eff att Some True show ?thesis
        by (intro exI[of _ 1] exI[of _ "page bm"]) simp
    next
      case False
      let ?bm2 = "bm_log (log_raw WARNING (''Failed to click '' @ c @ '', trying fallback: '' @ e)) bm1"
      from Cons.prems t Some False have "click_loop ops rest ?bm2 = (res, bm')" by simp
      from Cons.IH[OF False this] obtain n w where
        n: "1 \<le> n" "n \<le> length rest"
        and f: "fail_all ops (take (n - 1) rest) (page ?bm2) = Some w"
        and p: "page bm' = snd (click_attempt ops (rest ! (n - 1)) w)"
        and r: "res = (fst (click_attempt ops (rest ! (n - 1)) w) = None)"
        and l: "\<not> res \<longrightarrow> n = length rest"
        and s: "bm_steps bm' = bm_steps ?bm2 @ map attempt_text (take n rest)"
        and a: "bm_actions bm' = bm_actions ?bm2 @
                [\<lparr>ar_action = (if res then ''Clicked element: '' else ''Click element: '') @ rest ! (n - 1),
                  ar_success = res,
                  ar_details = fst (click_attempt ops (rest ! (n - 1)) w)\<rparr>]"
        by blast
      from n have nth: "(c # rest) ! (Suc n - 1) = rest ! (n - 1)" by (cases n) auto
      from n have tk: "take (Suc n - 1) (c # rest) = c # take (n - 1) rest" by (cases n) auto
      have f': "fail_all ops (take (Suc n - 1) (c # rest)) (page bm) = Some w"
        unfolding tk using f att Some by simp
      have s': "bm_steps bm' = bm_steps bm @ map attempt_text (take (Suc n) (c # rest))"
        using s eff(2) by simp
      have a': "bm_actions bm' = bm_actions bm @
                [\<lparr>ar_action = (if res then ''Clicked element: '' else ''Click element: '')
                               @ (c # rest) ! (Suc n - 1),
                  ar_success = res,
                  ar_details = fst (click_attempt ops ((c # rest) ! (Suc n - 1)) w)\<rparr>]"
        unfolding nth using a eff(3) by simp
      have l': "\<not> res \<longrightarrow> Suc n = length (c # rest)"
        using l by simp
      have n': "1 \<le> Suc n" "Suc n \<le> length (c # rest)"
        using n by simp_all
      show ?thesis
        apply (rule exI[of _ "Suc n"])
        apply (rule exI[of _ w])
        apply (intro conjI)
               apply (rule n'(1))
              apply (rule n'(2))
             apply (rule f')
            apply (unfold nth)
            apply (rule p)
           apply (rule r)
          apply (rule l'[unfolded nth])
         apply (rule s')
        apply (rule a'[unfolded nth])
        done
    qed
  qed
qed

text \<open>
  The candidates before \<open>c\<close> fail in turn and the attempt on \<open>c\<close> succeeds: the loop ends
  there, in the world that attempt left, and the candidates after \<open>c\<close> are not tried.
\<close>

lemma click_loop_first_success:
  assumes "fail_all ops pre (page bm) = Some w1"
    and "click_attempt ops c w1 = (None, w2)"
  shows "\<exists>bm'. click_loop ops (pre @ c # post) bm = (True, bm')
           \<and> page bm' = w2
           \<and> bm_steps bm' = bm_steps bm @ map attempt_text (pre @ [c])
           \<and> bm_actions bm' = bm_actions bm @
                [\<lparr>ar_action = ''Clicked element: '' @ c, ar_success = True, ar_details = None\<rparr>]"
  using assms
proof (induction pre arbitrary: bm)
  case Nil
  obtain r bm1 where t: "try_click ops c bm = (r, bm1)" by (cases "try_click ops c bm")
  from try_click_attempt[OF t] Nil have r: "r = None" and p: "page bm1 = w2" by simp_all
  from try_click_None[OF t[unfolded r]] t r p show ?case by simp
next
  case (Cons x pre)
  obtain r bm1 where t: "try_click ops x bm = (r, bm1)" by (cases "try_click ops x bm")
  note att = try_click_attempt[OF t]
  from Cons.prems(1) att obtain e where r: "r = Some e" and f: "fail_all ops pre (page bm1) = Some w1"
    by (cases r) auto
  let ?bm2 = "bm_log (log_raw WARNING (''Failed to click '' @ x @ '', trying fallback: '' @ e)) bm1"
  from f have "fail_all ops pre (page ?bm2) = Some w1" by simp
  from Cons.IH[OF this Cons.prems(2)] obtain bm' where
    "click_loop ops (pre @ c # post) ?bm2 = (True, bm')" "page bm' = w2"
    "bm_steps bm' = bm_steps ?bm2 @ map attempt_text (pre @ [c])"
    "bm_actions bm' = bm_actions ?bm2 @
                [\<lparr>ar_action = ''Clicked element: '' @ c, ar_success = True, ar_details = None\<rparr>]"
    by blast
  with t r try_click_Some[OF t[unfolded r]] show ?case by simp
qed

text \<open>
  All candidates fail in turn: all are tried, and the record holds the error of the last.
\<close>

lemma click_loop_all_fail:
  assumes "cands \<noteq> []"
    and "fail_all ops (butlast cands) (page bm) = Some w1"
    and "click_attempt ops (last cands) w1 = (Some e, w2)"
  shows "\<exists>bm'. click_loop ops cands bm = (False, bm')
           \<and> page bm' = w2
           \<and> bm_steps bm' = bm_steps bm @ map attempt_text cands
           \<and> bm_actions bm' = bm_actions bm @
                [\<lparr>ar_action = ''Click element: '' @ last cands, ar_success = False,
                  ar_details = Some e\<rparr>]"
  using assms
proof (induction cands arbitrary: bm)
  case Nil
  then show ?case by simp
next
  case (Cons x rest)
  obtain r bm1 where t: "try_click ops x bm = (r, bm1)" by (cases "try_click ops x bm")
  note att = try_click_attempt[OF t]
  show ?case
  proof (cases "rest = []")
    case True
    with Cons.prems att have r: "r = Some e" and p: "page bm1 = w2" by simp_all
    from try_click_Some[OF t[unfolded r]] t r p True show ?thesis by simp
  next
    case False
    with Cons.prems(2) att obtain e1 where r: "r = Some e1"
      and f: "fail_all ops (butlast rest) (page bm1) = Some w1"
      by (cases r) auto
    let ?bm2 = "bm_log (log_raw WARNING (''Failed to click '' @ x @ '', trying fallback: '' @ e1)) bm1"
    from f have f2: "fail_all ops (butlast rest) (page ?bm2) = Some w1" by simp
    from Cons.prems(3) False have l: "click_attempt ops (last rest) w1 = (Some e, w2)" by simp
    from Cons.IH[OF False f2 l] obtain bm' where
      "click_loop ops rest ?bm2 = (False, bm')" "page bm' = w2"
      "bm_steps bm' = bm_steps ?bm2 @ map attempt_text rest"
      "bm_actions bm' = bm_actions ?bm2 @
                [\<lparr>ar_action = ''Click element: '' @ last rest, ar_success = False,
                  ar_details = Some e\<rparr>]"
      by blast
    with t r try_click_Some[OF t[unfolded r]] False show ?thesis by simp
  qed
qed

text \<open>
  Claim C4. \<open>click_element\<close> tries the primary selector and then the fallbacks in their
  listed order, each attempt (the wait for the selector, then the click) in the world the
  attempt before left. Whatever the page does, it attempts a non-empty prefix of the
  candidates: all but the last attempted fail; the result is true exactly when the last
  attempt succeeds, and false only when that attempt was on the last candidate; the page
  is left as the last attempt left it; and exactly one ActionRecord is appended, for the
  last attempt, with its error text when it failed. When the candidates before some
  candidate \<open>c\<close> fail and the attempt on \<open>c\<close> succeeds, the result is true, exactly the
  candidates up to \<open>c\<close> are attempted (with \<open>c\<close> the last of \<open>N\<close> candidates: exactly \<open>N\<close>
  attempts), no candidate after \<open>c\<close> is tried, and the record is the click on \<open>c\<close>. When
  all candidates fail, the result is false, all are attempted, and the record carries
  the error text of the last candidate's failure.
\<close>

theorem click_element_fallback_contract:
  fixes ops :: "'w page_ops"
  assumes run: "click_element ops selector fallback_selectors bm = (res, bm')"
    and cands: "cands = selector # (case fallback_selectors of None \<Rightarrow> [] | Some fs \<Rightarrow> fs)"
  shows "(\<exists>n w. 1 \<le> n \<and> n \<le> length cands
            \<and> fail_all ops (take (n - 1) cands) (page bm) = Some w
            \<and> page bm' = snd (click_attempt ops (cands ! (n - 1)) w)
            \<and> res = (fst (click_attempt ops (cands ! (n - 1)) w) = None)
            \<and> (\<not> res \<longrightarrow> n = length cands)
            \<and> bm_steps bm' = bm_steps bm @ map attempt_text (take n cands)
            \<and> bm_actions bm' = bm_actions bm @
                 [\<lparr>ar_action = (if res then ''Clicked element: '' else ''Click element: '') @ cands ! (n - 1),
                   ar_success = res,
                   ar_details = fst (click_attempt ops (cands ! (n - 1)) w)\<rparr>])
    \<and> (\<forall>pre c post w1 w2.
           cands = pre @ c # post
           \<and> fail_all ops pre (page bm) = Some w1
           \<and> click_attempt ops c w1 = (None, w2)
           \<longrightarrow> res \<and> page bm' = w2
               \<and> bm_steps bm' = bm_steps bm @ map attempt_text (pre @ [c])
               \<and> bm_actions bm' = bm_actions bm @
                    [\<lparr>ar_action = ''Clicked element: '' @ c, ar_success = True, ar_details = None\<rparr>])
    \<and> (\<forall>w1 e w2.
           fail_all ops (butlast cands) (page bm) = Some w1
           \<and> click_attempt ops (last cands) w1 = (Some e, w2)
           \<longrightarrow> \<not> res \<and> page bm' = w2
               \<and> bm_steps bm' = bm_steps bm @ map attempt_text cands
               \<and> bm_actions bm' = bm_actions bm @
                    [\<lparr>ar_action = ''Click element: '' @ last cands, ar_success = False,
                      ar_details = Some e\<rparr>])"
proof (intro conjI)
  have ne: "cands \<noteq> []" by (simp add: cands)
  have loop: "click_loop ops cands bm = (res, bm')"
    using run by (simp add: click_element_def selectors_to_try_def cands)
  show "\<exists>n w. 1 \<le> n \<and> n \<le> length cands
            \<and> fail_all ops (take (n - 1) cands) (page bm) = Some w
            \<and> page bm' = snd (click_attempt ops (cands ! (n - 1)) w)
            \<and> res = (fst (click_attempt ops (cands ! (n - 1)) w) = None)
            \<and> (\<not> res \<longrightarrow> n = length cands)
            \<and> bm_steps bm' = bm_steps bm @ map attempt_text (take n cands)
            \<and> bm_actions bm' = bm_actions bm @
                 [\<lparr>ar_action = (if res then ''Clicked element: '' else ''Click element: '') @ cands ! (n - 1),
                   ar_success = res,
                   ar_details = fst (click_attempt ops (cands ! (n - 1)) w)\<rparr>]"
    by (rule click_loop_shape[OF ne loop])
  show "\<forall>pre c post w1 w2.
           cands = pre @ c # post
           \<and> fail_all ops pre (page bm) = Some w1
           \<and> click_attempt ops c w1 = (None, w2)
           \<longrightarrow> res \<and> page bm' = w2
               \<and> bm_steps bm' = bm_steps bm @ map attempt_text (pre @ [c])
               \<and> bm_actions bm' = bm_actions bm @
                    [\<lparr>ar_action = ''Clicked element: '' @ c, ar_success = True, ar_details = None\<rparr>]"
  proof (intro allI impI, elim conjE)
    fix pre c post w1 w2
    assume c: "cands = pre @ c # post"
      and f: "fail_all ops pre (page bm) = Some w1"
      and s: "click_attempt ops c w1 = (None, w2)"
    from click_loop_first_success[OF f s, of post] obtain b where
      b: "click_loop ops (pre @ c # post) bm = (True, b)" "page b = w2"
         "bm_steps b = bm_steps bm @ map attempt_text (pre @ [c])"
         "bm_actions b = bm_actions bm @
            [\<lparr>ar_action = ''Clicked element: '' @ c, ar_success = True, ar_details = None\<rparr>]"
      by blast
    from b(1) loop c have "res" "bm' = b" by simp_all
    with b show "res \<and> page bm' = w2
               \<and> bm_steps bm' = bm_steps bm @ map attempt_text (pre @ [c])
               \<and> bm_actions bm' = bm_actions bm @
                    [\<lparr>ar_action = ''Clicked element: '' @ c, ar_success = True, ar_details = None\<rparr>]"
      by simp
  qed
  show "\<forall>w1 e w2.
           fail_all ops (butlast cands) (page bm) = Some w1
           \<and> click_attempt ops (last cands) w1 = (Some e, w2)
           \<longrightarrow> \<not> res \<and> page bm' = w2
               \<and> bm_steps bm' = bm_steps bm @ map attempt_text cands
               \<and> bm_actions bm' = bm_actions bm @
                    [\<lparr>ar_action = ''Click element: '' @ last cands, ar_success = False,
                      ar_details = Some e\<rparr>]"
  proof (intro allI impI, elim conjE)
    fix w1 e w2
    assume f: "fail_all ops (butlast cands) (page bm) = Some w1"
      and l: "click_attempt ops (last cands) w1 = (Some e, w2)"
    from click_loop_all_fail[OF ne f l] obtain b where
      b: "click_loop ops cands bm = (False, b)" "page b = w2"
         "bm_steps b = bm_steps bm @ map attempt_text cands"
         "bm_actions b = bm_actions bm @
            [\<lparr>ar_action = ''Click element: '' @ last cands, ar_success = False, ar_details = Some e\<rparr>]"
      by blast
    from b(1) loop have "\<not> res" "bm' = b" by simp_all
    with b show "\<not> res \<and> page bm' = w2
               \<and> bm_steps bm' = bm_steps bm @ map attempt_text cands
               \<and> bm_actions bm' = bm_actions bm @
                    [\<lparr>ar_action = ''Click element: '' @ last cands, ar_success = False,
                      ar_details = Some e\<rparr>]"
      by simp
  qed
qed

lemma static_page_attempt:
  "click_attempt (static_page visible) sel w =
     (if sel \<in> set visible then (None, w @ [''wait '' @ sel, ''click '' @ sel])
      else (Some (''Timeout waiting for '' @ sel), w @ [''wait '' @ sel]))"
  by (simp add: click_attempt_def static_page_def)

lemma fresh_manager_empty:
  "page fresh_manager = []" "bm_steps fresh_manager = []" "bm_actions fresh_manager = []"
  by (simp_all add: bm_steps_def bm_actions_def fresh_manager_def new_action_logger_def)

text \<open>
  Three candidates of which only the last is on the page: three waits and one click are
  made on the page, the result is true, and the one record appended is the click on the
  last candidate. With no candidate on the page: three waits, the result is false, and
  the record holds the error of the last wait.
\<close>

theorem click_element_fallback_contract_witness:
  "click_element (static_page [''#c'']) ''#a'' (Some [''#b'', ''#c'']) fresh_manager
     = (True, snd (click_element (static_page [''#c'']) ''#a'' (Some [''#b'', ''#c'']) fresh_manager))
   \<and> page (snd (click_element (static_page [''#c'']) ''#a'' (Some [''#b'', ''#c'']) fresh_manager))
       = [''wait #a'', ''wait #b'', ''wait #c'', ''click #c'']
   \<and> bm_steps (snd (click_element (static_page [''#c'']) ''#a'' (Some [''#b'', ''#c'']) fresh_manager))
       = [''Attempting to click element: #a'', ''Attempting to click element: #b'',
          ''Attempting to click element: #c'']
   \<and> bm_actions (snd (click_element (static_page [''#c'']) ''#a'' (Some [''#b'', ''#c'']) fresh_manager))
       = [\<lparr>ar_action = ''Clicked element: #c'', ar_success = True, ar_details = None\<rparr>]
   \<and> fst (click_element (static_page []) ''#a'' (Some [''#b'', ''#c'']) fresh_manager) = False
   \<and> page (snd (click_element (static_page []) ''#a'' (Some [''#b'', ''#c'']) fresh_manager))
       = [''wait #a'', ''wait #b'', ''wait #c'']
   \<and> bm_actions (snd (click_element (static_page []) ''#a'' (Some [''#b'', ''#c'']) fresh_manager))
       = [\<lparr>ar_action = ''Click element: #c'', ar_success = False,
           ar_details = Some ''Timeout waiting for #c''\<rparr>]"
proof -
  obtain res bm' where
    run: "click_element (static_page [''#c'']) ''#a'' (Some [''#b'', ''#c'']) fresh_manager = (res, bm')"
    by (cases "click_element (static_page [''#c'']) ''#a'' (Some [''#b'', ''#c'']) fresh_manager")
  obtain res0 bm0 where
    run0: "click_element (static_page []) ''#a'' (Some [''#b'', ''#c'']) fresh_manager = (res0, bm0)"
    by (cases "click_element (static_page []) ''#a'' (Some [''#b'', ''#c'']) fresh_manager")
  have cands: "[''#a'', ''#b'', ''#c''] = ''#a'' # (case Some [''#b'', ''#c''] of None \<Rightarrow> [] | Some fs \<Rightarrow> fs)"
    by simp
  have split: "[''#a'', ''#b'', ''#c''] = [''#a'', ''#b''] @ ''#c'' # []"
    by simp
  have fails: "fail_all (static_page [''#c'']) [''#a'', ''#b''] (page fresh_manager)
                 = Some [''wait #a'', ''wait #b'']"
    by (simp add: static_page_attempt fresh_manager_empty)
  have ok: "click_attempt (static_page [''#c'']) ''#c'' [''wait #a'', ''wait #b'']
              = (None, [''wait #a'', ''wait #b'', ''wait #c'', ''click #c''])"
    by (simp add: static_page_attempt)
  from click_element_fallback_contract[OF run cands] split fails ok
  have first: "res \<and> page bm' = [''wait #a'', ''wait #b'', ''wait #c'', ''click #c'']
        \<and> bm_steps bm' = bm_steps fresh_manager @ map attempt_text ([''#a'', ''#b''] @ [''#c''])
        \<and> bm_actions bm' = bm_actions fresh_manager @
             [\<lparr>ar_action = ''Clicked element: '' @ ''#c'', ar_success = True, ar_details = None\<rparr>]"
    by blast
  have fails0: "fail_all (static_page []) (butlast [''#a'', ''#b'', ''#c'']) (page fresh_manager)
                  = Some [''wait #a'', ''wait #b'']"
    by (simp add: static_page_attempt fresh_manager_empty)
  have last0: "click_attempt (static_page []) (last [''#a'', ''#b'', ''#c'']) [''wait #a'', ''wait #b'']
                 = (Some ''Timeout waiting for #c'', [''wait #a'', ''wait #b'', ''wait #c''])"
    by (simp add: static_page_attempt)
  from click_element_fallback_contract[OF run0 cands] fails0 last0
  have second: "\<not> res0 \<and> page bm0 = [''wait #a'', ''wait #b'', ''wait #c'']
        \<and> bm_actions bm0 = bm_actions fresh_manager @
             [\<lparr>ar_action = ''Click element: '' @ last [''#a'', ''#b'', ''#c''], ar_success = False,
               ar_details = Some ''Timeout waiting for #c''\<rparr>]"
    by blast
  from first second show ?thesis
    by (simp add: run run0 attempt_text_def fresh_manager_empty)
qed

subsection \<open>One attempt of \<open>type_text\<close>\<close>

lemma click_loop_single:
  "click_loop ops [sel] bm =
     (case try_click ops sel bm of
        (None, bm1) \<Rightarrow> (True, bm1)
      | (Some e, bm1) \<Rightarrow> (False, bm_log (log_action (''Click element: '' @ sel) False (Some e)) bm1))"
  by (simp split: prod.splits option.splits)

lemma type_loop_single:
  "type_loop ops [sel] text bm =
     (case try_type ops sel text bm of
        (None, bm1) \<Rightarrow> (True, bm1)
      | (Some e, bm1) \<Rightarrow> (False, bm_log (log_action (''Type text in element: '' @ sel) False (Some e)) bm1))"
  by (simp split: prod.splits option.splits)

lemma try_click_outcome: "fst (try_click ops sel bm) = click_outcome ops sel (page bm)"
  by (cases rule: try_click_cases[of ops sel bm]) simp_all

lemma try_click_steps: "bm_steps (snd (try_click ops sel bm)) = bm_steps bm @ [attempt_text sel]"
  by (simp add: try_click_def attempt_text_def Let_def split: prod.splits option.splits)

lemma try_type_outcome: "fst (try_type ops sel text bm) = type_outcome ops sel text (page bm)"
  by (simp add: try_type_def type_outcome_def Let_def split: prod.splits option.splits)

lemma try_type_steps:
  "bm_steps (snd (try_type ops sel text bm)) = bm_steps bm @ [''Attempting to type in element: '' @ sel]"
  by (simp add: try_type_def Let_def split: prod.splits option.splits)

text \<open>
  Claim C7. \<open>click_element\<close> and \<open>type_text\<close> called without a fallback list, or with an
  empty one, make a single attempt, on the primary selector: the two calls are the same
  computation, exactly one attempt is logged, and the result is true exactly when the
  wait and the click (or the fill) on the primary selector both return.
\<close>

theorem empty_fallback_single_attempt:
  "click_element ops selector None bm = click_element ops selector (Some []) bm
   \<and> fst (click_element ops selector None bm) = (click_outcome ops selector (page bm) = None)
   \<and> bm_steps (snd (click_element ops selector None bm)) = bm_steps bm @ [attempt_text selector]
   \<and> type_text ops selector text None bm = type_text ops selector text (Some []) bm
   \<and> fst (type_text ops selector text None bm) = (type_outcome ops selector text (page bm) = None)
   \<and> bm_steps (snd (type_text ops selector text None bm))
       = bm_steps bm @ [''Attempting to type in element: '' @ selector]"
proof (intro conjI)
  show "click_element ops selector None bm = click_element ops selector (Some []) bm"
    by (simp add: click_element_def selectors_to_try_def)
  show "type_text ops selector text None bm = type_text ops selector text (Some []) bm"
    by (simp add: type_text_def selectors_to_try_def)
  have c: "click_element ops selector None bm = click_loop ops [selector] bm"
    by (simp add: click_element_def selectors_to_try_def)
  have t: "type_text ops selector text None bm = type_loop ops [selector] text bm"
    by (simp add: type_text_def selectors_to_try_def)
  obtain r bm1 where tc: "try_click ops selector bm = (r, bm1)"
    by (cases "try_click ops selector bm")
  obtain r' bm1' where tt: "try_type ops selector text bm = (r', bm1')"
    by (cases "try_type ops selector text bm")
  from try_click_outcome[of ops selector bm] tc
  show "fst (click_element ops selector None bm) = (click_outcome ops selector (page bm) = None)"
    unfolding c click_loop_single by (auto split: option.splits)
  from try_click_steps[of ops selector bm] tc
  show "bm_steps (snd (click_element ops selector None bm)) = bm_steps bm @ [attempt_text selector]"
    unfolding c click_loop_single by (auto split: option.splits)
  from try_type_outcome[of ops selector "text" bm] tt
  show "fst (type_text ops selector text None bm) = (type_outcome ops selector text (page bm) = None)"
    unfolding t type_loop_single by (auto split: option.splits)
  from try_type_steps[of ops selector "text" bm] tt
  show "bm_steps (snd (type_text ops selector text None bm))
          = bm_steps bm @ [''Attempting to type in element: '' @ selector]"
    unfolding t type_loop_single by (auto split: option.splits)
qed

subsection \<open>\<open>execute_action_plan\<close>\<close>

text \<open>Capturing a screenshot or the page's HTML leaves the outcome of the plan as it is.\<close>

lemma capture_screenshot_results:
  "pr_actions (fst (capture_screenshot cfg ops a x)) = pr_actions (fst x)"
  "pr_success (fst (capture_screenshot cfg ops a x)) = pr_success (fst x)"
  "pr_errors (fst (capture_screenshot cfg ops a x)) = pr_errors (fst x)"
  by (cases x; simp add: capture_screenshot_def split: prod.splits option.splits)+

lemma capture_html_results:
  "pr_actions (fst (capture_html cfg ops a x)) = pr_actions (fst x)"
  "pr_success (fst (capture_html cfg ops a x)) = pr_success (fst x)"
  "pr_errors (fst (capture_html cfg ops a x)) = pr_errors (fst x)"
  by (cases x; simp add: capture_html_def split: prod.splits option.splits)+

lemma plan_step_body_results:
  assumes "ok = fst (run_action cfg ops a (bm_log (log_step (''Step '' @ str_int (ps_step a) @ '': '' @ ps_description a) None) bm))"
  shows "pr_actions (fst (plan_step_body cfg ops a (results, bm))) = pr_actions results @ [result_of a ok]"
    and "pr_success (fst (plan_step_body cfg ops a (results, bm))) = (pr_success results \<and> ok)"
    and "pr_errors (fst (plan_step_body cfg ops a (results, bm)))
           = pr_errors results @ (if ok then [] else [failure_message a])"
  using assms
  by (auto simp: plan_step_body_def Let_def result_of_def capture_html_results capture_screenshot_results
           split: prod.splits)

lemma fold_plan_results:
  "\<exists>oks. length oks = length plan
     \<and> (\<forall>i<length plan. \<exists>b. oks ! i = fst (run_action cfg ops (plan ! i) b))
     \<and> pr_actions (fst (fold (plan_step_body cfg ops) plan (results, bm)))
          = pr_actions results @ map2 result_of plan oks
     \<and> pr_success (fst (fold (plan_step_body cfg ops) plan (results, bm)))
          = (pr_success results \<and> False \<notin> set oks)
     \<and> pr_errors (fst (fold (plan_step_body cfg ops) plan (results, bm)))
          = pr_errors results @ map failure_message (map fst (filter (\<lambda>(a, ok). \<not> ok) (zip plan oks)))"
proof (induction plan arbitrary: results bm)
  case Nil
  show ?case by simp
next
  case (Cons a plan)
  let ?b = "bm_log (log_step (''Step '' @ str_int (ps_step a) @ '': '' @ ps_description a) None) bm"
  define ok where "ok = fst (run_action cfg ops a ?b)"
  obtain r1 b1 where s: "plan_step_body cfg ops a (results, bm) = (r1, b1)"
    by (cases "plan_step_body cfg ops a (results, bm)")
  from plan_step_body_results[OF ok_def, of results] s
  have r1: "pr_actions r1 = pr_actions results @ [result_of a ok]"
    "pr_success r1 = (pr_success results \<and> ok)"
    "pr_errors r1 = pr_errors results @ (if ok then [] else [failure_message a])"
    by simp_all
  from Cons.IH[of r1 b1] obtain oks where
    l: "length oks = length plan"
    and e: "\<forall>i<length plan. \<exists>b. oks ! i = fst (run_action cfg ops (plan ! i) b)"
    and a: "pr_actions (fst (fold (plan_step_body cfg ops) plan (r1, b1))) = pr_actions r1 @ map2 result_of plan oks"
    and su: "pr_success (fst (fold (plan_step_body cfg ops) plan (r1, b1))) = (pr_success r1 \<and> False \<notin> set oks)"
    and er: "pr_errors (fst (fold (plan_step_body cfg ops) plan (r1, b1)))
          = pr_errors r1 @ map failure_message (map fst (filter (\<lambda>(a, ok). \<not> ok) (zip plan oks)))"
    by blast
  have ex: "\<forall>i<length (a # plan). \<exists>b. (ok # oks) ! i = fst (run_action cfg ops ((a # plan) ! i) b)"
  proof (intro allI impI)
    fix i assume "i < length (a # plan)"
    then show "\<exists>b. (ok # oks) ! i = fst (run_action cfg ops ((a # plan) ! i) b)"
      using e ok_def by (cases i) auto
  qed
  show ?case
    apply (rule exI[of _ "ok # oks"])
    using l ex a su er r1 s by auto
qed

lemma execute_plan_results:
  assumes run: "execute_action_plan cfg ops plan bm = (r, bm')"
  shows "\<exists>oks. length oks = length plan
     \<and> (\<forall>i<length plan. \<exists>b. oks ! i = fst (run_action cfg ops (plan ! i) b))
     \<and> pr_actions r = map2 result_of plan oks
     \<and> pr_success r = (False \<notin> set oks)
     \<and> pr_errors r = map failure_message (map fst (filter (\<lambda>(a, ok). \<not> ok) (zip plan oks)))"
  using fold_plan_results[of plan cfg ops empty_results bm] run
  by (simp add: execute_action_plan_def empty_results_def)


lemma five_elements:
  assumes "length xs = 5"
  shows "xs = [xs ! 0, xs ! 1, xs ! 2, xs ! 3, xs ! 4]"
proof (rule nth_equalityI)
  show "length xs = length [xs ! 0, xs ! 1, xs ! 2, xs ! 3, xs ! 4]" using assms by simp
next
  fix i assume "i < length xs"
  with assms have "i < 5" by simp
  then consider "i = 0" | "i = 1" | "i = 2" | "i = 3" | "i = 4" by linarith
  then show "xs ! i = [xs ! 0, xs ! 1, xs ! 2, xs ! 3, xs ! 4] ! i"
    by cases simp_all
qed

subsection \<open>The run of a plan, step by step\<close>

lemma capture_state_eq:
  "snd (capture_html cfg ops a (capture_screenshot cfg ops a (results, bm))) = capture_state cfg ops a bm"
  by (simp add: capture_html_def capture_screenshot_def capture_state_def Let_def
           split: prod.splits option.splits)

lemma plan_step_body_state:
  assumes "run_action cfg ops a (bm_log (log_step (step_text a) None) bm) = (ok, bm1)"
  shows "snd (plan_step_body cfg ops a (results, bm)) = (if ok then bm1 else capture_state cfg ops a bm1)"
    and "pr_actions (fst (plan_step_body cfg ops a (results, bm))) = pr_actions results @ [result_of a ok]"
    and "pr_success (fst (plan_step_body cfg ops a (results, bm))) = (pr_success results \<and> ok)"
    and "pr_errors (fst (plan_step_body cfg ops a (results, bm)))
           = pr_errors results @ (if ok then [] else [failure_message a])"
proof -
  from assms have r: "run_action cfg ops a
          (bm_log (log_step (''Step '' @ str_int (ps_step a) @ '': '' @ ps_description a) None) bm)
        = (ok, bm1)"
    by (simp add: step_text_def)
  then have ok: "ok = fst (run_action cfg ops a
          (bm_log (log_step (''Step '' @ str_int (ps_step a) @ '': '' @ ps_description a) None) bm))"
    by simp
  show "snd (plan_step_body cfg ops a (results, bm)) = (if ok then bm1 else capture_state cfg ops a bm1)"
    using r by (simp add: plan_step_body_def Let_def capture_state_eq)
  show "pr_actions (fst (plan_step_body cfg ops a (results, bm))) = pr_actions results @ [result_of a ok]"
    by (rule plan_step_body_results(1)[OF ok])
  show "pr_success (fst (plan_step_body cfg ops a (results, bm))) = (pr_success results \<and> ok)"
    by (rule plan_step_body_results(2)[OF ok])
  show "pr_errors (fst (plan_step_body cfg ops a (results, bm)))
           = pr_errors results @ (if ok then [] else [failure_message a])"
    by (rule plan_step_body_results(3)[OF ok])
qed

text \<open>The loop of \<open>execute_action_plan\<close> is the run of the plan, and records its outcomes.\<close>

lemma fold_plan_run:
  "snd (fold (plan_step_body cfg ops) plan (results, bm)) = snd (plan_run cfg ops plan bm)
   \<and> pr_actions (fst (fold (plan_step_body cfg ops) plan (results, bm)))
        = pr_actions results @ map2 result_of plan (fst (plan_run cfg ops plan bm))
   \<and> pr_success (fst (fold (plan_step_body cfg ops) plan (results, bm)))
        = (pr_success results \<and> False \<notin> set (fst (plan_run cfg ops plan bm)))
   \<and> pr_errors (fst (fold (plan_step_body cfg ops) plan (results, bm)))
        = pr_errors results
          @ map failure_message
              (map fst (filter (\<lambda>(a, ok). \<not> ok) (zip plan (fst (plan_run cfg ops plan bm)))))"
proof (induction plan arbitrary: results bm)
  case Nil
  show ?case by simp
next
  case (Cons a plan)
  obtain ok bm1 where r: "run_action cfg ops a (bm_log (log_step (step_text a) None) bm) = (ok, bm1)"
    by (cases "run_action cfg ops a (bm_log (log_step (step_text a) None) bm)")
  obtain r1 b1 where s: "plan_step_body cfg ops a (results, bm) = (r1, b1)"
    by (cases "plan_step_body cfg ops a (results, bm)")
  from plan_step_body_state[OF r, of results] s
  have b1: "b1 = (if ok then bm1 else capture_state cfg ops a bm1)"
    and r1: "pr_actions r1 = pr_actions results @ [result_of a ok]"
            "pr_success r1 = (pr_success results \<and> ok)"
            "pr_errors r1 = pr_errors results @ (if ok then [] else [failure_message a])"
    by simp_all
  obtain oks b' where p: "plan_run cfg ops plan b1 = (oks, b')"
    by (cases "plan_run cfg ops plan b1")
  from p b1 r have whole: "plan_run cfg ops (a # plan) bm = (ok # oks, b')"
    by simp
  from Cons.IH[of r1 b1] p
  have ih: "snd (fold (plan_step_body cfg ops) plan (r1, b1)) = b'"
    "pr_actions (fst (fold (plan_step_body cfg ops) plan (r1, b1))) = pr_actions r1 @ map2 result_of plan oks"
    "pr_success (fst (fold (plan_step_body cfg ops) plan (r1, b1))) = (pr_success r1 \<and> False \<notin> set oks)"
    "pr_errors (fst (fold (plan_step_body cfg ops) plan (r1, b1)))
        = pr_errors r1 @ map failure_message (map fst (filter (\<lambda>(a, ok). \<not> ok) (zip plan oks)))"
    by simp_all
  have f: "fold (plan_step_body cfg ops) (a # plan) (results, bm)
             = fold (plan_step_body cfg ops) plan (r1, b1)"
    by (simp add: s)
  show ?case
    unfolding f whole using ih r1 by auto
qed

lemma five_run:
  assumes "run_action cfg ops p0 (bm_log (log_step (step_text p0) None) bm) = (True, b1)"
    and "run_action cfg ops p1 (bm_log (log_step (step_text p1) None) b1) = (True, b2)"
    and "run_action cfg ops p2 (bm_log (log_step (step_text p2) None) b2) = (False, b3)"
    and "run_action cfg ops p3 (bm_log (log_step (step_text p3) None) (capture_state cfg ops p2 b3))
           = (True, b4)"
    and "run_action cfg ops p4 (bm_log (log_step (step_text p4) None) b4) = (True, b5)"
  shows "plan_run cfg ops [p0, p1, p2, p3, p4] bm = ([True, True, False, True, True], b5)"
  using assms by simp

text \<open>
  Claim C3. \<open>execute_action_plan\<close> processes every step of the plan, in order, and a
  failed step does not end the run: the manager it leaves is the one left by running
  every step's action, each in the manager the step before left (after its captures when
  it failed); the result holds one action result per step, in the plan's order, with the
  outcome of that step in the run; \<open>success\<close> is true exactly when no step failed, and
  \<open>errors\<close> holds one message per failed step, in order. For a plan of five steps of
  which, in the run, only the third fails: the fourth and the fifth are run, the manager
  left is the one the fifth step's action left, \<open>success\<close> is false, and \<open>errors\<close> holds
  exactly the one message of step 3.
\<close>

theorem execute_action_plan_never_aborts:
  assumes run: "execute_action_plan cfg ops plan bm = (r, bm')"
  shows "bm' = snd (plan_run cfg ops plan bm)
       \<and> pr_actions r = map2 result_of plan (fst (plan_run cfg ops plan bm))
       \<and> pr_success r = (False \<notin> set (fst (plan_run cfg ops plan bm)))
       \<and> pr_errors r = map failure_message
                          (map fst (filter (\<lambda>(a, ok). \<not> ok) (zip plan (fst (plan_run cfg ops plan bm)))))
       \<and> (\<forall>b1 b2 b3 b4 b5.
            length plan = 5
            \<and> run_action cfg ops (plan ! 0) (bm_log (log_step (step_text (plan ! 0)) None) bm) = (True, b1)
            \<and> run_action cfg ops (plan ! 1) (bm_log (log_step (step_text (plan ! 1)) None) b1) = (True, b2)
            \<and> run_action cfg ops (plan ! 2) (bm_log (log_step (step_text (plan ! 2)) None) b2) = (False, b3)
            \<and> run_action cfg ops (plan ! 3)
                 (bm_log (log_step (step_text (plan ! 3)) None) (capture_state cfg ops (plan ! 2) b3))
                = (True, b4)
            \<and> run_action cfg ops (plan ! 4) (bm_log (log_step (step_text (plan ! 4)) None) b4) = (True, b5)
            \<longrightarrow> bm' = b5
                \<and> pr_actions r = map2 result_of plan [True, True, False, True, True]
                \<and> \<not> pr_success r
                \<and> pr_errors r = [failure_message (plan ! 2)])"
proof -
  from fold_plan_run[of cfg ops plan empty_results bm] run
  have g: "bm' = snd (plan_run cfg ops plan bm)"
    "pr_actions r = map2 result_of plan (fst (plan_run cfg ops plan bm))"
    "pr_success r = (False \<notin> set (fst (plan_run cfg ops plan bm)))"
    "pr_errors r = map failure_message
                     (map fst (filter (\<lambda>(a, ok). \<not> ok) (zip plan (fst (plan_run cfg ops plan bm)))))"
    by (simp_all add: execute_action_plan_def empty_results_def)
  have five: "bm' = b5
                \<and> pr_actions r = map2 result_of plan [True, True, False, True, True]
                \<and> \<not> pr_success r
                \<and> pr_errors r = [failure_message (plan ! 2)]"
    if h: "length plan = 5
            \<and> run_action cfg ops (plan ! 0) (bm_log (log_step (step_text (plan ! 0)) None) bm) = (True, b1)
            \<and> run_action cfg ops (plan ! 1) (bm_log (log_step (step_text (plan ! 1)) None) b1) = (True, b2)
            \<and> run_action cfg ops (plan ! 2) (bm_log (log_step (step_text (plan ! 2)) None) b2) = (False, b3)
            \<and> run_action cfg ops (plan ! 3)
                 (bm_log (log_step (step_text (plan ! 3)) None) (capture_state cfg ops (plan ! 2) b3))
                = (True, b4)
            \<and> run_action cfg ops (plan ! 4) (bm_log (log_step (step_text (plan ! 4)) None) b4) = (True, b5)"
    for b1 b2 b3 b4 b5
  proof -
    from h have p: "plan = [plan ! 0, plan ! 1, plan ! 2, plan ! 3, plan ! 4]"
      by (intro five_elements) simp
    from h have h0: "run_action cfg ops (plan ! 0) (bm_log (log_step (step_text (plan ! 0)) None) bm) = (True, b1)"
      by (rule conjunct1[OF conjunct2])
    from h have h1: "run_action cfg ops (plan ! 1) (bm_log (log_step (step_text (plan ! 1)) None) b1) = (True, b2)"
      by (rule conjunct1[OF conjunct2[OF conjunct2]])
    from h have h2: "run_action cfg ops (plan ! 2) (bm_log (log_step (step_text (plan ! 2)) None) b2) = (False, b3)"
      by (rule conjunct1[OF conjunct2[OF conjunct2[OF conjunct2]]])
    from h have h3: "run_action cfg ops (plan ! 3)
                 (bm_log (log_step (step_text (plan ! 3)) None) (capture_state cfg ops (plan ! 2) b3))
                = (True, b4)"
      by (rule conjunct1[OF conjunct2[OF conjunct2[OF conjunct2[OF conjunct2]]]])
    from h have h4: "run_action cfg ops (plan ! 4) (bm_log (log_step (step_text (plan ! 4)) None) b4) = (True, b5)"
      by (rule conjunct2[OF conjunct2[OF conjunct2[OF conjunct2[OF conjunct2]]]])
    have "plan_run cfg ops [plan ! 0, plan ! 1, plan ! 2, plan ! 3, plan ! 4] bm
                   = ([True, True, False, True, True], b5)"
      by (rule five_run[OF h0 h1 h2 h3 h4])
    with p have pr: "plan_run cfg ops plan bm = ([True, True, False, True, True], b5)"
      by simp
    have z: "filter (\<lambda>(a, ok). \<not> ok) (zip plan [True, True, False, True, True]) = [(plan ! 2, False)]"
      by (subst p) simp
    show ?thesis
      using g by (simp add: pr z)
  qed
  from g five show ?thesis by blast
qed

subsection \<open>A run on a page where the target of step 3 is missing\<close>

lemma demo_step_runs:
  fixes b :: "(string list) browser_manager"
  shows "fst (run_action demo_config demo_page (demo_plan ! 0) b) = True"
    and "page (snd (run_action demo_config demo_page (demo_plan ! 0) b))
           = page b @ [''goto https://gmail.com'']"
    and "fst (run_action demo_config demo_page (demo_plan ! 1) b) = True"
    and "page (snd (run_action demo_config demo_page (demo_plan ! 1) b))
           = page b @ [''wait #compose'', ''click #compose'']"
    and "fst (run_action demo_config demo_page (demo_plan ! 2) b) = False"
    and "page (snd (run_action demo_config demo_page (demo_plan ! 2) b))
           = page b @ [''wait #to'', ''wait #recipient'']"
    and "fst (run_action demo_config demo_page (demo_plan ! 3) b) = True"
    and "page (snd (run_action demo_config demo_page (demo_plan ! 3) b))
           = page b @ [''wait #subject'', ''fill #subject'']"
    and "fst (run_action demo_config demo_page (demo_plan ! 4) b) = True"
    and "page (snd (run_action demo_config demo_page (demo_plan ! 4) b))
           = page b @ [''wait #send'', ''click #send'']"
  by (simp_all add: demo_plan_def demo_page_def static_page_def run_action_def navigate_def
        click_element_def type_text_def selectors_to_try_def try_click_def try_type_def
        bm_log_def Let_def)

lemma demo_capture_state:
  fixes b :: "(string list) browser_manager"
  shows "page (capture_state demo_config demo_page (demo_plan ! 2) b)
           = page b @ [''screenshot screenshots/error_step_3.png'', ''write screenshots/error_step_3.html'']"
proof -
  have n: "str_int (ps_step (demo_plan ! 2)) = ''3''"
    by code_simp
  show ?thesis
    by (simp add: capture_state_def n demo_config_def demo_page_def static_page_def
          take_screenshot_def save_page_html_def bm_log_def Let_def)
qed

text \<open>
  The target of step 3 and its fallback are missing from the page: the page calls of
  steps 4 and 5 are made after the captures of step 3, and the result records the one
  failure.
\<close>

theorem execute_action_plan_never_aborts_witness:
  "page (snd (execute_action_plan demo_config demo_page demo_plan fresh_manager))
     = [''goto https://gmail.com'', ''wait #compose'', ''click #compose'',
        ''wait #to'', ''wait #recipient'',
        ''screenshot screenshots/error_step_3.png'', ''write screenshots/error_step_3.html'',
        ''wait #subject'', ''fill #subject'', ''wait #send'', ''click #send'']
   \<and> map res_success (pr_actions (fst (execute_action_plan demo_config demo_page demo_plan fresh_manager)))
     = [True, True, False, True, True]
   \<and> pr_success (fst (execute_action_plan demo_config demo_page demo_plan fresh_manager)) = False
   \<and> pr_errors (fst (execute_action_plan demo_config demo_page demo_plan fresh_manager))
     = [''Step 3 failed: Enter recipient email'']"
proof -
  obtain r bm' where
    run: "execute_action_plan demo_config demo_page demo_plan fresh_manager = (r, bm')"
    by (cases "execute_action_plan demo_config demo_page demo_plan fresh_manager")
  define b1 where "b1 = snd (run_action demo_config demo_page (demo_plan ! 0)
                               (bm_log (log_step (step_text (demo_plan ! 0)) None) fresh_manager))"
  define b2 where "b2 = snd (run_action demo_config demo_page (demo_plan ! 1)
                               (bm_log (log_step (step_text (demo_plan ! 1)) None) b1))"
  define b3 where "b3 = snd (run_action demo_config demo_page (demo_plan ! 2)
                               (bm_log (log_step (step_text (demo_plan ! 2)) None) b2))"
  define b4 where "b4 = snd (run_action demo_config demo_page (demo_plan ! 3)
                               (bm_log (log_step (step_text (demo_plan ! 3)) None)
                                  (capture_state demo_config demo_page (demo_plan ! 2) b3)))"
  define b5 where "b5 = snd (run_action demo_config demo_page (demo_plan ! 4)
                               (bm_log (log_step (step_text (demo_plan ! 4)) None) b4))"
  have len: "length demo_plan = 5" by (simp add: demo_plan_def)
  have s0: "run_action demo_config demo_page (demo_plan ! 0)
              (bm_log (log_step (step_text (demo_plan ! 0)) None) fresh_manager) = (True, b1)"
    unfolding b1_def by (rule prod_eqI) (simp_all only: demo_step_runs fst_conv snd_conv)
  have s1: "run_action demo_config demo_page (demo_plan ! 1)
              (bm_log (log_step (step_text (demo_plan ! 1)) None) b1) = (True, b2)"
    unfolding b2_def by (rule prod_eqI) (simp_all only: demo_step_runs fst_conv snd_conv)
  have s2: "run_action demo_config demo_page (demo_plan ! 2)
              (bm_log (log_step (step_text (demo_plan ! 2)) None) b2) = (False, b3)"
    unfolding b3_def by (rule prod_eqI) (simp_all only: demo_step_runs fst_conv snd_conv)
  have s3: "run_action demo_config demo_page (demo_plan ! 3)
              (bm_log (log_step (step_text (demo_plan ! 3)) None)
                 (capture_state demo_config demo_page (demo_plan ! 2) b3)) = (True, b4)"
    unfolding b4_def by (rule prod_eqI) (simp_all only: demo_step_runs fst_conv snd_conv)
  have s4: "run_action demo_config demo_page (demo_plan ! 4)
              (bm_log (log_step (step_text (demo_plan ! 4)) None) b4) = (True, b5)"
    unfolding b5_def by (rule prod_eqI) (simp_all only: demo_step_runs fst_conv snd_conv)
  have pl: "\<And>f (b :: (string list) browser_manager). page (bm_log f b) = page b"
    by (simp add: bm_log_def)
  have p1: "page b1 = [''goto https://gmail.com'']"
    unfolding b1_def by (simp only: demo_step_runs pl) (simp add: fresh_manager_def)
  have p2: "page b2 = page b1 @ [''wait #compose'', ''click #compose'']"
    unfolding b2_def by (simp only: demo_step_runs pl)
  have p3: "page b3 = page b2 @ [''wait #to'', ''wait #recipient'']"
    unfolding b3_def by (simp only: demo_step_runs pl)
  have p4: "page b4 = page b3 @ [''screenshot screenshots/error_step_3.png'',
                                 ''write screenshots/error_step_3.html'',
                                 ''wait #subject'', ''fill #subject'']"
    unfolding b4_def by (simp only: demo_step_runs pl demo_capture_state) simp
  have p5: "page b5 = page b4 @ [''wait #send'', ''click #send'']"
    unfolding b5_def by (simp only: demo_step_runs pl)
  have pg: "page b5 = [''goto https://gmail.com'', ''wait #compose'', ''click #compose'',
        ''wait #to'', ''wait #recipient'',
        ''screenshot screenshots/error_step_3.png'', ''write screenshots/error_step_3.html'',
        ''wait #subject'', ''fill #subject'', ''wait #send'', ''click #send'']"
    by (simp add: p5 p4 p3 p2 p1)
  have msg: "failure_message (demo_plan ! 2) = ''Step 3 failed: Enter recipient email''"
    by code_simp
  from execute_action_plan_never_aborts[OF run] len s0 s1 s2 s3 s4
  have "bm' = b5
        \<and> pr_actions r = map2 result_of demo_plan [True, True, False, True, True]
        \<and> \<not> pr_success r \<and> pr_errors r = [failure_message (demo_plan ! 2)]"
    by blast
  moreover have "map res_success (map2 result_of demo_plan [True, True, False, True, True])
                   = [True, True, False, True, True]"
    by (simp add: demo_plan_def result_of_def)
  ultimately show ?thesis
    by (simp add: run msg pg)
qed

text \<open>
  Claim C10. A step of the plan whose action is none of \<open>navigate\<close>, \<open>click\<close>, \<open>type\<close>,
  \<open>wait\<close> and \<open>verify\<close> runs no page call and counts as failed: its action result has
  \<open>success\<close> false, the plan's \<open>success\<close> is false, and \<open>errors\<close> holds the message of that
  step.
\<close>

theorem unknown_action_recorded_as_failure:
  assumes run: "execute_action_plan cfg ops plan bm = (r, bm')"
    and i: "i < length plan"
    and unk: "ps_action (plan ! i) \<notin> {''navigate'', ''click'', ''type'', ''wait'', ''verify''}"
  shows "(\<forall>b. run_action cfg ops (plan ! i) b = (False, b))
       \<and> length (pr_actions r) = length plan
       \<and> pr_actions r ! i = result_of (plan ! i) False
       \<and> \<not> pr_success r
       \<and> failure_message (plan ! i) \<in> set (pr_errors r)"
proof -
  have skip: "\<forall>b. run_action cfg ops (plan ! i) b = (False, b)"
    using unk by (simp add: run_action_def)
  from execute_plan_results[OF run] obtain oks where
    l: "length oks = length plan"
    and e: "\<forall>i<length plan. \<exists>b. oks ! i = fst (run_action cfg ops (plan ! i) b)"
    and a: "pr_actions r = map2 result_of plan oks"
    and s: "pr_success r = (False \<notin> set oks)"
    and er: "pr_errors r = map failure_message (map fst (filter (\<lambda>(a, ok). \<not> ok) (zip plan oks)))"
    by blast
  from e i skip have f: "oks ! i = False" by auto
  with l i have mem: "False \<in> set oks" by (metis nth_mem)
  from l i have "(plan ! i, oks ! i) \<in> set (zip plan oks)"
    by (metis in_set_zip fst_conv snd_conv)
  with f have "(plan ! i, False) \<in> set (filter (\<lambda>(a, ok). \<not> ok) (zip plan oks))"
    by simp
  then have "plan ! i \<in> set (map fst (filter (\<lambda>(a, ok). \<not> ok) (zip plan oks)))"
    by force
  then have "failure_message (plan ! i)
               \<in> failure_message ` set (map fst (filter (\<lambda>(a, ok). \<not> ok) (zip plan oks)))"
    by (rule imageI)
  then have m: "failure_message (plan ! i) \<in> set (pr_errors r)"
    unfolding er by (simp only: set_map)
  from a l have "length (pr_actions r) = length plan" by simp
  moreover from a l i f have "pr_actions r ! i = result_of (plan ! i) False" by simp
  ultimately show ?thesis using skip s mem m by simp
qed

theorem unknown_action_recorded_as_failure_witness:
  "pr_actions (fst (execute_action_plan demo_config demo_page hover_plan fresh_manager)) ! 1
     = \<lparr>res_step = 2, res_action = ''hover'', res_target = ''#menu'',
        res_description = ''Hover over the menu'', res_success = False\<rparr>
   \<and> pr_success (fst (execute_action_plan demo_config demo_page hover_plan fresh_manager)) = False
   \<and> ''Step 2 failed: Hover over the menu''
        \<in> set (pr_errors (fst (execute_action_plan demo_config demo_page hover_plan fresh_manager)))"
proof -
  obtain r bm' where
    run: "execute_action_plan demo_config demo_page hover_plan fresh_manager = (r, bm')"
    by (cases "execute_action_plan demo_config demo_page hover_plan fresh_manager")
  have i: "1 < length hover_plan" by (simp add: hover_plan_def)
  have unk: "ps_action (hover_plan ! 1) \<notin> {''navigate'', ''click'', ''type'', ''wait'', ''verify''}"
    by (simp add: hover_plan_def)
  have msg: "failure_message (hover_plan ! 1) = ''Step 2 failed: Hover over the menu''"
    by code_simp
  have res: "result_of (hover_plan ! 1) False
               = \<lparr>res_step = 2, res_action = ''hover'', res_target = ''#menu'',
                  res_description = ''Hover over the menu'', res_success = False\<rparr>"
    by (simp add: hover_plan_def result_of_def)
  from unknown_action_recorded_as_failure[OF run i unk] msg res
  show ?thesis by (simp add: run)
qed

section \<open>Properties of the ActionLogger\<close>

lemma list_at_update [simp]:
  "list_at (st\<lparr>lists := f\<rparr>) r = (case f r of Some xs \<Rightarrow> xs | None \<Rightarrow> [])"
  by (simp add: list_at_def)

lemma list_at_lists: "(case lists st r of Some xs \<Rightarrow> xs | None \<Rightarrow> []) = list_at st r"
  by (simp add: list_at_def)

lemma list_at_next_ref [simp]: "list_at (st\<lparr>next_ref := n\<rparr>) r = list_at st r"
  by (simp add: list_at_def)

lemma list_at_dicts [simp]: "list_at (st\<lparr>dicts := d\<rparr>) r = list_at st r"
  by (simp add: list_at_def)

lemma apply_mutation_other:
  "r' \<noteq> r \<Longrightarrow> list_at (apply_mutation r m st) r' = list_at st r'"
  by (simp add: apply_mutation_def list_at_lists)

lemma apply_mutation_dicts [simp]: "dicts (apply_mutation r m st) = dicts st"
  by (simp add: apply_mutation_def)

lemma fold_mutation_other:
  "r' \<noteq> r \<Longrightarrow> list_at (fold (apply_mutation r) ms st) r' = list_at st r'"
  by (induction ms arbitrary: st) (simp_all add: apply_mutation_other)

lemma fold_mutation_dicts [simp]: "dicts (fold (apply_mutation r) ms st) = dicts st"
  by (induction ms arbitrary: st) simp_all

text \<open>Logging an action appends one entry to the logger's own list.\<close>

lemma log_action_st_entries:
  assumes "allocated lg st"
  shows "entries_of (log_action_st action success details lg st) (lg_actions lg)
           = entries_of st (lg_actions lg)
             @ [Some \<lparr>ar_action = action, ar_success = success, ar_details = details\<rparr>]"
    and "allocated lg (log_action_st action success details lg st)"
proof -
  from assms have "\<forall>d\<in>set (list_at st (lg_actions lg)). d \<noteq> next_ref st"
    by (auto simp: allocated_def list_all_iff)
  then show "entries_of (log_action_st action success details lg st) (lg_actions lg)
           = entries_of st (lg_actions lg)
             @ [Some \<lparr>ar_action = action, ar_success = success, ar_details = details\<rparr>]"
    by (simp add: entries_of_def log_action_st_def list_at_lists cong: map_cong)
  from assms show "allocated lg (log_action_st action success details lg st)"
    by (auto simp: allocated_def log_action_st_def list_all_iff list_at_lists)
qed

text \<open>
  Claim C9. \<open>get_actions\<close> returns a new list object holding the entries logged so far.
  Whatever list operations the caller then applies to the returned list, the logger's
  own list and the entries read through it stay as they were; and an action logged
  after the call is appended to the logger's list and not to the list returned before.
\<close>

theorem get_actions_returns_copy:
  assumes alloc: "allocated lg st"
    and call: "get_actions_st lg st = (r, st1)"
  shows "r \<noteq> lg_actions lg
       \<and> list_at st1 r = list_at st (lg_actions lg)
       \<and> list_at (fold (apply_mutation r) ms st1) (lg_actions lg) = list_at st (lg_actions lg)
       \<and> entries_of (fold (apply_mutation r) ms st1) (lg_actions lg) = entries_of st (lg_actions lg)
       \<and> list_at (log_action_st action success details lg st1) r = list_at st1 r
       \<and> entries_of (log_action_st action success details lg st1) r = entries_of st (lg_actions lg)
       \<and> entries_of (log_action_st action success details lg st1) (lg_actions lg)
           = entries_of st (lg_actions lg)
             @ [Some \<lparr>ar_action = action, ar_success = success, ar_details = details\<rparr>]"
proof -
  from call have r: "r = next_ref st"
    and st1: "st1 = st\<lparr>lists := (lists st)(next_ref st \<mapsto> list_at st (lg_actions lg)),
                       next_ref := Suc (next_ref st)\<rparr>"
    by (auto simp: get_actions_st_def)
  from alloc r have ne: "r \<noteq> lg_actions lg" "lg_actions lg \<noteq> r"
    by (simp_all add: allocated_def)
  from alloc have fresh: "\<forall>d\<in>set (list_at st (lg_actions lg)). d < next_ref st"
    by (simp add: allocated_def list_all_iff)
  have copy: "list_at st1 r = list_at st (lg_actions lg)"
    by (simp add: st1 r)
  have own: "list_at st1 (lg_actions lg) = list_at st (lg_actions lg)"
    using ne by (simp add: st1 r list_at_lists)
  have d1: "dicts st1 = dicts st" by (simp add: st1)
  have alloc1: "allocated lg st1"
    using alloc ne fresh by (auto simp: allocated_def st1 r list_all_iff list_at_lists)
  have m: "list_at (fold (apply_mutation r) ms st1) (lg_actions lg) = list_at st (lg_actions lg)"
    using fold_mutation_other[OF ne(2), of ms st1] own by simp
  have me: "entries_of (fold (apply_mutation r) ms st1) (lg_actions lg) = entries_of st (lg_actions lg)"
    by (simp add: entries_of_def m d1)
  have l: "list_at (log_action_st action success details lg st1) r = list_at st1 r"
    using ne by (simp add: log_action_st_def list_at_lists)
  from fresh have "\<forall>d\<in>set (list_at st (lg_actions lg)). d \<noteq> next_ref st1"
    by (auto simp: st1)
  then have le: "entries_of (log_action_st action success details lg st1) r = entries_of st (lg_actions lg)"
    using l copy d1 by (simp add: entries_of_def log_action_st_def)
  have la: "entries_of (log_action_st action success details lg st1) (lg_actions lg)
           = entries_of st (lg_actions lg)
             @ [Some \<lparr>ar_action = action, ar_success = success, ar_details = details\<rparr>]"
    using log_action_st_entries(1)[OF alloc1] own d1 by (simp add: entries_of_def)
  from ne copy m me l le la show ?thesis by simp
qed

lemma demo_store_allocated: "allocated demo_logger demo_store"
  by (simp add: allocated_def demo_logger_def demo_store_def init_logger_def empty_store_def
                log_action_st_def list_at_def)

lemma demo_store_entries:
  "entries_of demo_store (lg_actions demo_logger)
     = [Some \<lparr>ar_action = ''Browser initialized'', ar_success = True, ar_details = None\<rparr>]"
  by (simp add: entries_of_def demo_logger_def demo_store_def init_logger_def empty_store_def
                log_action_st_def list_at_def)

text \<open>
  The caller empties the returned list and appends to it, and a second action is logged:
  the logger still holds its first entry, followed by the second.
\<close>

theorem get_actions_returns_copy_witness:
  "entries_of (fold (apply_mutation (fst (get_actions_st demo_logger demo_store))) [Clear, Append 0]
                 (snd (get_actions_st demo_logger demo_store))) (lg_actions demo_logger)
     = [Some \<lparr>ar_action = ''Browser initialized'', ar_success = True, ar_details = None\<rparr>]
   \<and> entries_of (log_action_st ''Provider selected'' True None demo_logger
                   (snd (get_actions_st demo_logger demo_store)))
        (fst (get_actions_st demo_logger demo_store))
     = [Some \<lparr>ar_action = ''Browser initialized'', ar_success = True, ar_details = None\<rparr>]
   \<and> entries_of (log_action_st ''Provider selected'' True None demo_logger
                   (snd (get_actions_st demo_logger demo_store)))
        (lg_actions demo_logger)
     = [Some \<lparr>ar_action = ''Browser initialized'', ar_success = True, ar_details = None\<rparr>,
        Some \<lparr>ar_action = ''Provider selected'', ar_success = True, ar_details = None\<rparr>]"
proof -
  obtain r st1 where call: "get_actions_st demo_logger demo_store = (r, st1)"
    by (cases "get_actions_st demo_logger demo_store")
  from get_actions_returns_copy[OF demo_store_allocated call,
         of "[Clear, Append 0]" "''Provider selected''" True None]
  show ?thesis
    by (simp add: call demo_store_entries)
qed

subsection \<open>The store and the logger as a value\<close>

text \<open>
  The logger as a value (section ActionLogger) and the logger on the store log the same
  entries: when the entries of the logger's list are the \<open>actions\<close> of the value, they
  still are after \<open>log_action\<close> on both, and \<open>get_actions\<close> returns them on both.
\<close>

lemma store_log_action_refines:
  assumes "allocated lg st" and "entries_of st (lg_actions lg) = map Some (actions l)"
  shows "entries_of (log_action_st action success details lg st) (lg_actions lg)
           = map Some (actions (log_action action success details l))"
  using log_action_st_entries(1)[OF assms(1), of action success details] assms(2)
  by (simp add: log_action_def)

lemma store_get_actions_refines:
  assumes "allocated lg st" and "entries_of st (lg_actions lg) = map Some (actions l)"
  shows "entries_of (snd (get_actions_st lg st)) (fst (get_actions_st lg st))
           = map Some (get_actions l)"
proof -
  from assms(1) have "lg_actions lg \<noteq> next_ref st" by (simp add: allocated_def)
  then show ?thesis
    using assms(2) by (simp add: get_actions_st_def get_actions_def entries_of_def list_at_lists)
qed

section \<open>Properties of the ProviderAdapter\<close>







section \<open>Properties of the LLMService\<close>

subsection \<open>Dicts\<close>

lemma dict_get_set: "dict_get (dict_set k v d) k' = (if k' = k then Some v else dict_get d k')"
  by (induction d) (auto simp: dict_get_def)

lemma dict_get_fold_defaults:
  "dict_get (fold (\<lambda>(key, default_value) d.
                     if dict_get d key = None then dict_set key default_value d else d) ds d) k
     = (case dict_get d k of Some v \<Rightarrow> Some v | None \<Rightarrow> map_of ds k)"
proof (induction ds arbitrary: d)
  case Nil
  show ?case by (simp split: option.splits)
next
  case (Cons a ds)
  obtain key dv where a: "a = (key, dv)" by (cases a)
  show ?case
    by (simp add: a Cons.IH dict_get_set split: option.splits)
qed

lemma dict_get_fill_defaults:
  "dict_get (fill_defaults d) k = (case dict_get d k of Some v \<Rightarrow> Some v | None \<Rightarrow> map_of defaults k)"
  by (simp add: fill_defaults_def dict_get_fold_defaults)

lemma dict_get_clean_recipients:
  "k \<noteq> ''recipients'' \<Longrightarrow> dict_get (clean_recipients d) k = dict_get d k"
  by (simp add: clean_recipients_def dict_get_set split: option.splits json.splits)

subsection \<open>Words and subjects\<close>

lemma split_acc_words: "w \<in> set (split_acc cur s) \<Longrightarrow> w \<noteq> []"
  by (induction cur s rule: split_acc.induct) (auto split: if_splits)

lemma split_acc_empty: "split_acc cur s = [] \<longleftrightarrow> cur = [] \<and> (\<forall>ch\<in>set s. is_space ch)"
  by (induction cur s rule: split_acc.induct) auto

lemma join_nonempty: "ws \<noteq> [] \<Longrightarrow> \<forall>w\<in>set ws. w \<noteq> [] \<Longrightarrow> join sep ws \<noteq> []"
  by (induction sep ws rule: join.induct) auto

text \<open>The generated subject is empty exactly when the content has no word.\<close>

lemma generate_subject_nonempty:
  "generate_subject c \<noteq> [] \<longleftrightarrow> (\<exists>ch\<in>set c. \<not> is_space ch)"
proof
  assume "generate_subject c \<noteq> []"
  then have "split c \<noteq> []"
    by (auto simp: generate_subject_def Let_def split: if_splits)
  then show "\<exists>ch\<in>set c. \<not> is_space ch"
    by (simp add: split_def split_acc_empty)
next
  assume "\<exists>ch\<in>set c. \<not> is_space ch"
  then have ne: "split c \<noteq> []" by (simp add: split_def split_acc_empty)
  then have t: "take 5 (split c) \<noteq> []" by (cases "split c") simp_all
  have "\<forall>w\<in>set (take 5 (split c)). w \<noteq> []"
    using split_acc_words[of _ "[]" c] by (auto simp: split_def dest: in_set_takeD)
  with t have "join '' '' (take 5 (split c)) \<noteq> []" by (rule join_nonempty)
  then show "generate_subject c \<noteq> []"
    by (simp add: generate_subject_def Let_def)
qed

subsection \<open>The fallback\<close>

text \<open>
  Whatever goes wrong in the call of the model, in the parser or in the validation, the
  result is the fallback: its content is the whole instruction and its recipients are the
  matches of the pattern in the instruction.
\<close>

lemma interpret_instruction_fallback:
  assumes "reply instruction = Inl e \<or> (\<exists>j e. reply instruction = Inr j \<and> validate_task_info j = Inl e)"
  shows "interpret_instruction reply instruction = fallback_parsing instruction"
    and "dict_get (interpret_instruction reply instruction) ''content'' = Some (JStr instruction)"
    and "dict_get (interpret_instruction reply instruction) ''recipients''
           = Some (JArr (map JStr (findall email_pattern instruction)))"
  using assms
  by (auto simp: interpret_instruction_def fallback_parsing_def dict_get_def)

text \<open>
  Claim C6. The model's call fails and the instruction holds two addresses separated by a
  vertical bar. The class \<^verbatim>\<open>[A-Z|a-z]\<close> of the pattern contains the bar, so the last part
  of the first match runs over the bar into the second address: the one recipient
  extracted is no address, and the second address is not extracted.
\<close>

theorem fallback_recipients_bar_separated:
  "dict_get (interpret_instruction (\<lambda>i. Inl ''model unavailable'')
               ''send email to alice@example.com|bob@test.org saying hello'') ''recipients''
     = Some (JArr [JStr ''alice@example.com|bob''])"
  by code_simp

subsection \<open>Subjects of interpreted tasks\<close>

text \<open>
  The model returns a task without subject whose content is a single space: the record
  returned has a content that is not empty and an empty subject.
\<close>

theorem backfilled_subject_empty_counterexample:
  "dict_get (interpret_instruction (\<lambda>i. Inr (JObj [(''content'', JStr '' '')])) ''send it'') ''subject''
     = Some (JStr [])
   \<and> dict_get (interpret_instruction (\<lambda>i. Inr (JObj [(''content'', JStr '' '')])) ''send it'') ''content''
     = Some (JStr '' '')"
  by code_simp

text \<open>
  Claim C8, amended. When the record parsed from the model's reply has no subject, or an
  empty one, and its content is a non-empty string, the interpreter returns the record
  with the subject generated from the content (its first five words joined by single
  spaces, cut to 47 characters and three dots when longer than 50) and the content as it
  was; that subject is non-empty exactly when the content has a character that is not
  white space.
\<close>

theorem interpret_backfills_subject:
  assumes reply: "reply instruction = Inr (JObj kvs)"
    and subject: "dict_get (dict_of_items kvs) ''subject'' = None
                  \<or> (\<exists>v. dict_get (dict_of_items kvs) ''subject'' = Some v \<and> \<not> truthy v)"
    and content: "dict_get (dict_of_items kvs) ''content'' = Some (JStr c)"
    and nonempty: "c \<noteq> []"
  shows "dict_get (interpret_instruction reply instruction) ''subject'' = Some (JStr (generate_subject c))
       \<and> dict_get (interpret_instruction reply instruction) ''content'' = Some (JStr c)
       \<and> (generate_subject c \<noteq> [] \<longleftrightarrow> (\<exists>ch\<in>set c. \<not> is_space ch))"
proof -
  let ?t = "clean_recipients (fill_defaults (dict_of_items kvs))"
  have c: "dict_get ?t ''content'' = Some (JStr c)"
    using content by (simp add: dict_get_clean_recipients dict_get_fill_defaults)
  from subject obtain v where s: "dict_get ?t ''subject'' = Some v" and f: "\<not> truthy v"
    by (auto simp: dict_get_clean_recipients dict_get_fill_defaults defaults_def)
  have "validate_task_info (JObj kvs) = Inr (dict_set ''subject'' (JStr (generate_subject c)) ?t)"
    using c s f nonempty by (simp add: validate_task_info_def Let_def)
  then have r: "interpret_instruction reply instruction
                  = dict_set ''subject'' (JStr (generate_subject c)) ?t"
    using reply by (simp add: interpret_instruction_def)
  show ?thesis
    using c by (simp add: r dict_get_set generate_subject_nonempty)
qed

theorem interpret_backfills_subject_witness:
  "dict_get (interpret_instruction subjectless_reply ''tell joe'') ''subject''
     = Some (JStr ''Meeting at 2pm in room'')
   \<and> dict_get (interpret_instruction subjectless_reply ''tell joe'') ''content''
     = Some (JStr ''Meeting at 2pm in room 5 today'')"
proof -
  let ?kvs = "[(''subject'', JStr []), (''content'', JStr ''Meeting at 2pm in room 5 today'')]"
  have reply: "subjectless_reply ''tell joe'' = Inr (JObj ?kvs)"
    by (simp add: subjectless_reply_def)
  have subject: "dict_get (dict_of_items ?kvs) ''subject'' = None
                 \<or> (\<exists>v. dict_get (dict_of_items ?kvs) ''subject'' = Some v \<and> \<not> truthy v)"
    by (simp add: dict_of_items_def dict_get_def)
  have content: "dict_get (dict_of_items ?kvs) ''content'' = Some (JStr ''Meeting at 2pm in room 5 today'')"
    by (simp add: dict_of_items_def dict_get_def)
  have nonempty: "''Meeting at 2pm in room 5 today'' \<noteq> []"
    by simp
  have gen: "generate_subject ''Meeting at 2pm in room 5 today'' = ''Meeting at 2pm in room''"
    by code_simp
  from interpret_backfills_subject[where reply = subjectless_reply, OF reply subject content nonempty] gen
  show ?thesis by simp
qed

section \<open>Properties of the GenericUIAgent\<close>

subsection \<open>The session calls of a run\<close>

lemma warning_texts_append: "warning_texts (xs @ ys) = warning_texts xs @ warning_texts ys"
  by (induction xs rule: warning_texts.induct) auto

lemma error_texts_append: "error_texts (xs @ ys) = error_texts xs @ error_texts ys"
  by (induction xs rule: error_texts.induct) auto

lemma ag_log_fields [simp]:
  "ag_config (ag_log f ag) = ag_config ag"
  "ag_browser (ag_log f ag) = ag_browser ag"
  "ag_calls (ag_log f ag) = ag_calls ag"
  "ag_providers (ag_log f ag) = ag_providers ag"
  by (simp_all add: ag_log_def)

lemma ag_warnings_log [simp]:
  "ag_warnings (ag_log (log_step s d) ag) = ag_warnings ag"
  "ag_warnings (ag_log (log_action a b c) ag) = ag_warnings ag"
  "ag_warnings (ag_log (log_error m e) ag) = ag_warnings ag"
  "ag_warnings (ag_log (log_success m) ag) = ag_warnings ag"
  "ag_warnings (ag_log (log_warning m) ag) = ag_warnings ag @ [m]"
  by (simp_all add: ag_warnings_def ag_log_def log_step_def log_action_def log_error_def
                    log_success_def log_warning_def warning_texts_append)

lemma ag_errors_log [simp]:
  "ag_errors (ag_log (log_step s d) ag) = ag_errors ag"
  "ag_errors (ag_log (log_action a b c) ag) = ag_errors ag"
  "ag_errors (ag_log (log_error m e) ag) = ag_errors ag @ [m]"
  "ag_errors (ag_log (log_success m) ag) = ag_errors ag"
  "ag_errors (ag_log (log_warning m) ag) = ag_errors ag"
  by (simp_all add: ag_errors_def ag_log_def log_step_def log_action_def log_error_def
                    log_success_def log_warning_def error_texts_append)

lemma agent_interpret_instruction_session:
  "ag_browser (snd (agent_interpret_instruction env instruction ag)) = ag_browser ag"
  "ag_calls (snd (agent_interpret_instruction env instruction ag)) = ag_calls ag"
  by (simp_all add: agent_interpret_instruction_def Let_def)

lemma provider_selected_session [simp]:
  "ag_browser (snd (provider_selected sel ag)) = ag_browser ag"
  "ag_calls (snd (provider_selected sel ag)) = ag_calls ag"
  "ag_warnings (snd (provider_selected sel ag)) = ag_warnings ag"
  by (simp_all add: provider_selected_def split: option.splits)

lemma select_provider_session:
  "ag_browser (snd (select_provider env task_info ag)) = ag_browser ag"
  "ag_calls (snd (select_provider env task_info ag)) = ag_calls ag"
  by (simp_all add: select_provider_def Let_def split: json.splits)

lemma get_provider_adapter_session:
  "ag_browser (snd (get_provider_adapter env name ag)) = ag_browser ag"
  "ag_calls (snd (get_provider_adapter env name ag)) = ag_calls ag"
  by (simp_all add: get_provider_adapter_def split: option.splits)

lemma agent_execute_task_session:
  "ag_browser (snd (agent_execute_task env name task_info ag)) = ag_browser ag"
  "ag_calls (snd (agent_execute_task env name task_info ag)) = ag_calls ag"
proof -
  let ?ag1 = "ag_log (log_step (''Executing task with '' @ name) None) ag"
  obtain p ag2 where g: "get_provider_adapter env name ?ag1 = (p, ag2)"
    by (cases "get_provider_adapter env name ?ag1")
  from get_provider_adapter_session[of env name ?ag1] g
  have k: "ag_browser ag2 = ag_browser ag" "ag_calls ag2 = ag_calls ag" by simp_all
  from k g show "ag_browser (snd (agent_execute_task env name task_info ag)) = ag_browser ag"
    by (simp add: agent_execute_task_def Let_def split: sum.splits)
  from k g show "ag_calls (snd (agent_execute_task env name task_info ag)) = ag_calls ag"
    by (simp add: agent_execute_task_def Let_def split: sum.splits)
qed

lemma initialize_browser_session:
  "env_new_browser env = None \<Longrightarrow>
     ag_browser (snd (initialize_browser env ag)) \<and>
     ag_calls (snd (initialize_browser env ag)) = ag_calls ag @ [Create, Start]"
  "env_new_browser env \<noteq> None \<Longrightarrow>
     fst (initialize_browser env ag) \<noteq> None \<and>
     ag_browser (snd (initialize_browser env ag)) = ag_browser ag \<and>
     ag_calls (snd (initialize_browser env ag)) = ag_calls ag"
  by (auto simp: initialize_browser_def Let_def split: option.splits)

lemma execute_body_session:
  "run_selects env instruction ag \<noteq> None \<and> env_new_browser env = None \<Longrightarrow>
     ag_browser (snd (execute_body env instruction ag)) \<and>
     ag_calls (snd (execute_body env instruction ag)) = ag_calls ag @ [Create, Start]"
  "run_selects env instruction ag = None \<or> env_new_browser env \<noteq> None \<Longrightarrow>
     ag_browser (snd (execute_body env instruction ag)) = ag_browser ag \<and>
     ag_calls (snd (execute_body env instruction ag)) = ag_calls ag"
proof -
  let ?ag1 = "ag_log (log_step ''Starting instruction execution'' (Some instruction)) ag"
  obtain t ag2 where i: "agent_interpret_instruction env instruction ?ag1 = (t, ag2)"
    by (cases "agent_interpret_instruction env instruction ?ag1")
  from agent_interpret_instruction_session[of env instruction ?ag1] i
  have k2: "ag_browser ag2 = ag_browser ag" "ag_calls ag2 = ag_calls ag" by simp_all
  show "ag_browser (snd (execute_body env instruction ag)) \<and>
     ag_calls (snd (execute_body env instruction ag)) = ag_calls ag @ [Create, Start]"
    if h: "run_selects env instruction ag \<noteq> None \<and> env_new_browser env = None"
  proof -
    from h i obtain task_info where t: "t = Some task_info" "task_info \<noteq> []"
      by (cases t) (auto simp: run_selects_def split: if_splits)
    obtain sel ag3 where s: "select_provider env task_info ag2 = (sel, ag3)"
      by (cases "select_provider env task_info ag2")
    from h i t s obtain provider where sel: "sel = Some provider"
      by (cases sel) (auto simp: run_selects_def)
    from select_provider_session[of env task_info ag2] s k2
    have k3: "ag_browser ag3 = ag_browser ag" "ag_calls ag3 = ag_calls ag" by simp_all
    obtain r ag4 where b: "initialize_browser env ag3 = (r, ag4)"
      by (cases "initialize_browser env ag3")
    from initialize_browser_session(1)[of env ag3] h b k3
    have k4: "ag_browser ag4" "ag_calls ag4 = ag_calls ag @ [Create, Start]" by simp_all
    obtain res ag5 where e: "agent_execute_task env provider task_info ag4 = (res, ag5)"
      by (cases "agent_execute_task env provider task_info ag4")
    from agent_execute_task_session[of env provider task_info ag4] e k4
    have k5: "ag_browser ag5" "ag_calls ag5 = ag_calls ag @ [Create, Start]" by simp_all
    show ?thesis
      using k4 k5 by (cases r) (simp_all add: execute_body_def i t s sel b e Let_def)
  qed
  show "ag_browser (snd (execute_body env instruction ag)) = ag_browser ag \<and>
     ag_calls (snd (execute_body env instruction ag)) = ag_calls ag"
    if h: "run_selects env instruction ag = None \<or> env_new_browser env \<noteq> None"
  proof (cases t)
    case None
    then show ?thesis using k2 by (simp add: execute_body_def i Let_def)
  next
    case (Some task_info)
    show ?thesis
    proof (cases "task_info = []")
      case True
      then show ?thesis using k2 Some by (simp add: execute_body_def i Let_def)
    next
      case False
      obtain sel ag3 where s: "select_provider env task_info ag2 = (sel, ag3)"
        by (cases "select_provider env task_info ag2")
      from select_provider_session[of env task_info ag2] s k2
      have k3: "ag_browser ag3 = ag_browser ag" "ag_calls ag3 = ag_calls ag" by simp_all
      show ?thesis
      proof (cases sel)
        case None
        then show ?thesis using k3 Some False by (simp add: execute_body_def i s Let_def)
      next
        case (Some provider)
        with h i \<open>t = Some task_info\<close> False s have nb: "env_new_browser env \<noteq> None"
          by (auto simp: run_selects_def)
        obtain r ag4 where b: "initialize_browser env ag3 = (r, ag4)"
          by (cases "initialize_browser env ag3")
        from initialize_browser_session(2)[OF nb, of ag3] b k3
        obtain e where r: "r = Some e" and k4: "ag_browser ag4 = ag_browser ag" "ag_calls ag4 = ag_calls ag"
          by (cases r) auto
        show ?thesis
          using k4 by (simp add: execute_body_def i \<open>t = Some task_info\<close> False s Some b r Let_def)
      qed
    qed
  qed
qed

text \<open>
  The example that refutes the claim: the agent is the one the constructor returns for a
  valid configuration, the model is the stub of the repository, and Gmail is selected;
  the constructor of the BrowserManager raises, so the run ends with that exception,
  no session exists, and \<open>stop\<close> is not called.
\<close>

theorem stop_not_called_counterexample:
  "new_agent demo_cfg = Inr demo_agent
   \<and> run_selects no_directory_env ''send email to alice@example.com saying Hello'' demo_agent
       = Some ''gmail''
   \<and> ag_calls (snd (execute no_directory_env
                      ''send email to alice@example.com saying Hello'' demo_agent)) = []
   \<and> count_list (ag_calls (snd (execute no_directory_env
                                   ''send email to alice@example.com saying Hello'' demo_agent))) Stop = 0
   \<and> r_success (fst (execute no_directory_env
                        ''send email to alice@example.com saying Hello'' demo_agent)) = False
   \<and> r_error (fst (execute no_directory_env
                      ''send email to alice@example.com saying Hello'' demo_agent))
       = Some ''[Errno 17] File exists: screenshots''"
  by code_simp

text \<open>
  Claim C1, amended. In a run of \<open>execute\<close> on an agent that holds no browser manager, a
  BrowserManager is created exactly when the run selects a provider and the constructor
  of the manager returns. In every such run, whether the task then succeeds, the
  provider fails, or \<open>start\<close> or the task raise, \<open>stop\<close> is called exactly once, after
  \<open>start\<close>. A run that ends before a manager is created (no provider is selected, or the
  constructor raises) makes no call on a session, so \<open>stop\<close> is not called. After every
  run the agent holds no browser manager.
\<close>

theorem cleanup_stops_created_session:
  assumes fresh: "\<not> ag_browser ag"
    and run: "execute env instruction ag = (res, ag')"
  shows "(run_selects env instruction ag \<noteq> None \<and> env_new_browser env = None
            \<longrightarrow> ag_calls ag' = ag_calls ag @ [Create, Start, Stop])
       \<and> (run_selects env instruction ag = None \<or> env_new_browser env \<noteq> None
            \<longrightarrow> ag_calls ag' = ag_calls ag)
       \<and> count_list (ag_calls ag') Stop
           = count_list (ag_calls ag) Stop
             + (if run_selects env instruction ag \<noteq> None \<and> env_new_browser env = None then 1 else 0)
       \<and> \<not> ag_browser ag'"
proof -
  obtain r ag1 where b: "execute_body env instruction ag = (r, ag1)"
    by (cases "execute_body env instruction ag")
  from run b have ag': "ag' = cleanup_browser ag1"
    by (simp add: execute_def)
  show ?thesis
  proof (cases "run_selects env instruction ag \<noteq> None \<and> env_new_browser env = None")
    case True
    from execute_body_session(1)[OF True] b
    have "ag_browser ag1" "ag_calls ag1 = ag_calls ag @ [Create, Start]" by simp_all
    then show ?thesis using True by (simp add: ag' cleanup_browser_def)
  next
    case False
    then have h: "run_selects env instruction ag = None \<or> env_new_browser env \<noteq> None" by simp
    from execute_body_session(2)[OF h] b fresh
    have "\<not> ag_browser ag1" "ag_calls ag1 = ag_calls ag" by simp_all
    then show ?thesis using h by (auto simp: ag' cleanup_browser_def)
  qed
qed

text \<open>
  Gmail is configured and every collaborator succeeds: one \<open>stop\<close>, after the \<open>start\<close>.
  The same when \<open>start\<close> raises: the manager was created, and it is stopped once.
\<close>

theorem cleanup_stops_created_session_witness:
  "new_agent demo_cfg = Inr demo_agent
   \<and> ag_calls (snd (execute demo_env ''send email to alice@example.com saying Hello'' demo_agent))
       = [Create, Start, Stop]
   \<and> count_list (ag_calls (snd (execute demo_env
                                   ''send email to alice@example.com saying Hello'' demo_agent))) Stop = 1
   \<and> ag_browser (snd (execute demo_env
                        ''send email to alice@example.com saying Hello'' demo_agent)) = False
   \<and> ag_calls (snd (execute no_launch_env ''send email to alice@example.com saying Hello'' demo_agent))
       = [Create, Start, Stop]
   \<and> r_error (fst (execute no_launch_env ''send email to alice@example.com saying Hello'' demo_agent))
       = Some ''Executable does not exist''"
proof -
  obtain res ag' where
    run: "execute demo_env ''send email to alice@example.com saying Hello'' demo_agent = (res, ag')"
    by (cases "execute demo_env ''send email to alice@example.com saying Hello'' demo_agent")
  obtain res2 ag2 where
    run2: "execute no_launch_env ''send email to alice@example.com saying Hello'' demo_agent = (res2, ag2)"
    by (cases "execute no_launch_env ''send email to alice@example.com saying Hello'' demo_agent")
  have made: "new_agent demo_cfg = Inr demo_agent"
    by (simp add: new_agent_def validate_def demo_cfg_def demo_agent_def truthy_str_def)
  have fresh: "\<not> ag_browser demo_agent"
    by (simp add: demo_agent_def)
  have calls: "ag_calls demo_agent = []"
    by (simp add: demo_agent_def)
  have sel: "run_selects demo_env ''send email to alice@example.com saying Hello'' demo_agent
               = Some ''gmail''"
    by code_simp
  have sel2: "run_selects no_launch_env ''send email to alice@example.com saying Hello'' demo_agent
               = Some ''gmail''"
    by code_simp
  have ctor: "env_new_browser demo_env = None"
    by (simp add: demo_env_def)
  have ctor2: "env_new_browser no_launch_env = None"
    by (simp add: no_launch_env_def demo_env_def)
  have err2: "r_error (fst (execute no_launch_env
                  ''send email to alice@example.com saying Hello'' demo_agent))
                = Some ''Executable does not exist''"
    by code_simp
  from cleanup_stops_created_session[OF fresh run] sel ctor calls
  have a: "ag_calls ag' = [Create, Start, Stop]" "\<not> ag_browser ag'" by simp_all
  from cleanup_stops_created_session[OF fresh run2] sel2 ctor2 calls
  have b: "ag_calls ag2 = [Create, Start, Stop]" by simp
  from err2 run2 have c: "r_error res2 = Some ''Executable does not exist''" by simp
  from a b c made show ?thesis by (simp add: run run2)
qed

subsection \<open>Provider selection\<close>

lemma first_available_nonempty:
  "first_available (get_available_providers cfg) = Some p \<Longrightarrow> p \<noteq> []"
  by (auto simp: first_available_def get_available_providers_def split: if_splits)

lemma provider_selected_first_available:
  "fst (provider_selected (first_available (get_available_providers cfg)) ag)
     = first_available (get_available_providers cfg)"
proof (cases "first_available (get_available_providers cfg)")
  case None
  then show ?thesis by (simp add: provider_selected_def)
next
  case (Some p)
  with first_available_nonempty[OF Some] show ?thesis by (simp add: provider_selected_def)
qed

lemma first_available_Nil [simp]: "first_available [] = None"
  by (simp add: first_available_def)

lemma provider_selected_name:
  "name \<noteq> [] \<Longrightarrow> fst (provider_selected (Some name) ag) = Some name"
  by (simp add: provider_selected_def)

lemma select_provider_auto:
  assumes "preference_of task_info = JStr ''auto''"
  shows "fst (select_provider env task_info ag)
           = (if ''gmail'' \<in> set (get_available_providers (ag_config ag)) then Some ''gmail''
              else first_available (get_available_providers (ag_config ag)))"
    and "ag_warnings (snd (select_provider env task_info ag)) = ag_warnings ag"
  using assms
  by (auto simp: select_provider_def preference_of_def Let_def provider_selected_first_available
                 provider_selected_name)

lemma select_provider_named:
  assumes "preference_of task_info = JStr name" and "name = ''gmail'' \<or> name = ''outlook''"
  shows "is_provider_configured (ag_config ag) name \<Longrightarrow>
           fst (select_provider env task_info ag) = Some name
           \<and> ag_warnings (snd (select_provider env task_info ag)) = ag_warnings ag"
    and "\<not> is_provider_configured (ag_config ag) name \<Longrightarrow>
           fst (select_provider env task_info ag) = first_available (get_available_providers (ag_config ag))
           \<and> ag_warnings (snd (select_provider env task_info ag)) = ag_warnings ag @ [unmet_warning name]"
  using assms
  by (auto simp: select_provider_def preference_of_def Let_def provider_selected_first_available
                 provider_selected_name unmet_warning_def)

lemma select_provider_unknown:
  assumes "preference_of task_info \<notin> {JStr ''auto'', JStr ''gmail'', JStr ''outlook''}"
  shows "fst (select_provider env task_info ag) = None"
    and "ag_warnings (snd (select_provider env task_info ag)) = ag_warnings ag"
    and "ag_errors (snd (select_provider env task_info ag))
           = ag_errors ag @ [''Unknown provider preference: '' @ env_str env (preference_of task_info)]"
  using assms
  by (auto simp: select_provider_def preference_of_def Let_def)

lemma select_provider_none_configured:
  assumes "get_available_providers (ag_config ag) = []"
  shows "fst (select_provider env task_info ag) = None"
proof -
  consider (auto) "preference_of task_info = JStr ''auto''"
    | (named) name where "preference_of task_info = JStr name" "name = ''gmail'' \<or> name = ''outlook''"
    | (unknown) "preference_of task_info \<notin> {JStr ''auto'', JStr ''gmail'', JStr ''outlook''}"
    by auto
  then show ?thesis
  proof cases
    case auto
    from select_provider_auto(1)[OF auto, of env ag] assms show ?thesis
      by (simp add: first_available_def)
  next
    case named
    from assms have "\<not> is_provider_configured (ag_config ag) name"
      by (simp add: is_provider_configured_def)
    from select_provider_named(2)[OF named this, of env] assms show ?thesis
      by (simp add: first_available_def)
  next
    case unknown
    then show ?thesis by (rule select_provider_unknown(1))
  qed
qed

subsection \<open>The run of an agent that selects no provider\<close>

lemma dict_set_nonempty: "dict_set k v d \<noteq> []"
  by (cases d) (auto split: if_splits)

lemma validate_task_info_nonempty: "validate_task_info j = Inr result \<Longrightarrow> result \<noteq> []"
  by (auto simp: validate_task_info_def Let_def dict_set_nonempty dict_get_def
           split: json.splits option.splits if_splits)

lemma interpret_instruction_nonempty: "interpret_instruction reply instruction \<noteq> []"
  by (auto simp: interpret_instruction_def fallback_parsing_def
           dest: validate_task_info_nonempty split: sum.splits)

lemma interpreted_fields:
  "ag_config (interpreted env instruction ag) = ag_config ag"
  "ag_browser (interpreted env instruction ag) = ag_browser ag"
  "ag_errors (interpreted env instruction ag) = ag_errors ag"
  "ag_warnings (interpreted env instruction ag) = ag_warnings ag"
  by (simp_all add: interpreted_def agent_interpret_instruction_def Let_def)

lemma cleanup_browser_logs:
  "ag_errors (cleanup_browser ag) = ag_errors ag"
  "ag_warnings (cleanup_browser ag) = ag_warnings ag"
  by (simp_all add: cleanup_browser_def ag_errors_def ag_warnings_def ag_log_def log_action_def
                    error_texts_append warning_texts_append)

lemma execute_unselected:
  assumes "fst (select_provider env (interpret_instruction (env_reply env) instruction)
                  (interpreted env instruction ag)) = None"
  shows "r_success (fst (execute env instruction ag)) = False"
    and "r_error (fst (execute env instruction ag)) = Some ''No suitable provider available''"
    and "snd (execute env instruction ag)
           = cleanup_browser (snd (select_provider env (interpret_instruction (env_reply env) instruction)
                                     (interpreted env instruction ag)))"
proof -
  let ?ag1 = "ag_log (log_step ''Starting instruction execution'' (Some instruction)) ag"
  let ?ti = "interpret_instruction (env_reply env) instruction"
  have i: "agent_interpret_instruction env instruction ?ag1 = (Some ?ti, interpreted env instruction ag)"
    by (simp add: interpreted_def agent_interpret_instruction_def Let_def)
  have ne: "?ti \<noteq> []" by (rule interpret_instruction_nonempty)
  obtain sel ag3 where s: "select_provider env ?ti (interpreted env instruction ag) = (sel, ag3)"
    by (cases "select_provider env ?ti (interpreted env instruction ag)")
  from assms s have sel: "sel = None" by simp
  have b: "execute_body env instruction ag
             = (create_error_result ''No suitable provider available'' ag3, ag3)"
    using ne by (simp add: execute_body_def Let_def i s sel)
  show "r_success (fst (execute env instruction ag)) = False"
    by (simp add: execute_def b create_error_result_def)
  show "r_error (fst (execute env instruction ag)) = Some ''No suitable provider available''"
    by (simp add: execute_def b create_error_result_def)
  show "snd (execute env instruction ag)
           = cleanup_browser (snd (select_provider env ?ti (interpreted env instruction ag)))"
    by (simp add: execute_def b s)
qed

text \<open>
  The example that refutes the claim's second clause: the task names \<open>yahoo\<close>, which is
  not configured, and Gmail is configured; no provider is selected, where the claim has
  the selection fall back on \<open>gmail\<close>, and no warning is logged.
\<close>

theorem unknown_preference_counterexample:
  "new_agent demo_cfg = Inr demo_agent
   \<and> get_available_providers (ag_config demo_agent) = [''gmail'']
   \<and> fst (select_provider demo_env [(''provider_preference'', JStr ''yahoo'')] demo_agent) = None
   \<and> ag_warnings (snd (select_provider demo_env
                          [(''provider_preference'', JStr ''yahoo'')] demo_agent)) = []"
  by code_simp

text \<open>
  Claim C5, amended. With the preference \<open>auto\<close> (or none) the provider selected is
  \<open>gmail\<close> when Gmail is configured, and the first configured provider otherwise; so it is
  \<open>gmail\<close> when both are configured. When the task names \<open>gmail\<close> or \<open>outlook\<close> and that
  provider is configured, it is selected; when it is not configured, the first
  configured provider is selected and exactly one warning, about the unmet preference,
  is logged. No other case logs a warning. Any other preference selects no provider,
  whatever is configured: the error \<open>Unknown provider preference\<close> is logged, no warning
  is, and a run of \<open>execute\<close> whose task has such a preference fails with the error
  \<open>No suitable provider available\<close>. When no provider is configured, no provider is
  selected whatever the preference, and every run of \<open>execute\<close> fails with the error
  \<open>No suitable provider available\<close>; the constructor of the agent refuses such a
  configuration, so such a run is one of an agent whose configuration lost its
  providers after the agent was made.
\<close>

theorem provider_selection_policy:
  "(preference_of task_info = JStr ''auto'' \<longrightarrow>
      fst (select_provider env task_info ag)
        = (if ''gmail'' \<in> set (get_available_providers (ag_config ag)) then Some ''gmail''
           else first_available (get_available_providers (ag_config ag)))
      \<and> ag_warnings (snd (select_provider env task_info ag)) = ag_warnings ag)
   \<and> (preference_of task_info = JStr ''auto''
       \<and> is_provider_configured (ag_config ag) ''gmail''
       \<and> is_provider_configured (ag_config ag) ''outlook'' \<longrightarrow>
      fst (select_provider env task_info ag) = Some ''gmail'')
   \<and> (\<forall>name. preference_of task_info = JStr name \<and> (name = ''gmail'' \<or> name = ''outlook'')
              \<and> is_provider_configured (ag_config ag) name \<longrightarrow>
      fst (select_provider env task_info ag) = Some name
      \<and> ag_warnings (snd (select_provider env task_info ag)) = ag_warnings ag)
   \<and> (\<forall>name. preference_of task_info = JStr name \<and> (name = ''gmail'' \<or> name = ''outlook'')
              \<and> \<not> is_provider_configured (ag_config ag) name \<longrightarrow>
      fst (select_provider env task_info ag) = first_available (get_available_providers (ag_config ag))
      \<and> ag_warnings (snd (select_provider env task_info ag)) = ag_warnings ag @ [unmet_warning name])
   \<and> (preference_of task_info \<notin> {JStr ''auto'', JStr ''gmail'', JStr ''outlook''} \<longrightarrow>
      fst (select_provider env task_info ag) = None
      \<and> ag_warnings (snd (select_provider env task_info ag)) = ag_warnings ag
      \<and> ag_errors (snd (select_provider env task_info ag))
          = ag_errors ag @ [''Unknown provider preference: '' @ env_str env (preference_of task_info)])
   \<and> (preference_of (interpret_instruction (env_reply env) instruction)
         \<notin> {JStr ''auto'', JStr ''gmail'', JStr ''outlook''} \<longrightarrow>
      r_success (fst (execute env instruction ag)) = False
      \<and> r_error (fst (execute env instruction ag)) = Some ''No suitable provider available''
      \<and> ag_warnings (snd (execute env instruction ag)) = ag_warnings ag
      \<and> ag_errors (snd (execute env instruction ag))
          = ag_errors ag @ [''Unknown provider preference: ''
                            @ env_str env (preference_of (interpret_instruction (env_reply env) instruction))])
   \<and> (get_available_providers (ag_config ag) = [] \<longrightarrow>
      fst (select_provider env task_info ag) = None
      \<and> r_success (fst (execute env instruction ag)) = False
      \<and> r_error (fst (execute env instruction ag)) = Some ''No suitable provider available'')
   \<and> (\<forall>cfg. get_available_providers cfg = [] \<longrightarrow>
        new_agent cfg = Inl (if openai_api_key cfg = [] then ''OpenAI API key is required''
                             else ''At least one email provider must be configured''))"
proof (intro conjI allI impI)
  assume a: "preference_of task_info = JStr ''auto''"
  show "fst (select_provider env task_info ag)
        = (if ''gmail'' \<in> set (get_available_providers (ag_config ag)) then Some ''gmail''
           else first_available (get_available_providers (ag_config ag)))"
    by (rule select_provider_auto(1)[OF a])
  show "ag_warnings (snd (select_provider env task_info ag)) = ag_warnings ag"
    by (rule select_provider_auto(2)[OF a])
next
  assume "preference_of task_info = JStr ''auto''
       \<and> is_provider_configured (ag_config ag) ''gmail''
       \<and> is_provider_configured (ag_config ag) ''outlook''"
  then show "fst (select_provider env task_info ag) = Some ''gmail''"
    using select_provider_auto(1)[of task_info env ag] by (simp add: is_provider_configured_def)
next
  fix name
  assume h: "preference_of task_info = JStr name \<and> (name = ''gmail'' \<or> name = ''outlook'')
              \<and> is_provider_configured (ag_config ag) name"
  then have p: "preference_of task_info = JStr name" and n: "name = ''gmail'' \<or> name = ''outlook''"
    and c: "is_provider_configured (ag_config ag) name" by simp_all
  from select_provider_named(1)[OF p n c, of env]
  show "fst (select_provider env task_info ag) = Some name"
    and "ag_warnings (snd (select_provider env task_info ag)) = ag_warnings ag"
    by simp_all
next
  fix name
  assume h: "preference_of task_info = JStr name \<and> (name = ''gmail'' \<or> name = ''outlook'')
              \<and> \<not> is_provider_configured (ag_config ag) name"
  then have p: "preference_of task_info = JStr name" and n: "name = ''gmail'' \<or> name = ''outlook''"
    and c: "\<not> is_provider_configured (ag_config ag) name" by simp_all
  from select_provider_named(2)[OF p n c, of env]
  show "fst (select_provider env task_info ag) = first_available (get_available_providers (ag_config ag))"
    and "ag_warnings (snd (select_provider env task_info ag)) = ag_warnings ag @ [unmet_warning name]"
    by simp_all
next
  assume u: "preference_of task_info \<notin> {JStr ''auto'', JStr ''gmail'', JStr ''outlook''}"
  show "fst (select_provider env task_info ag) = None"
    by (rule select_provider_unknown(1)[OF u])
  show "ag_warnings (snd (select_provider env task_info ag)) = ag_warnings ag"
    by (rule select_provider_unknown(2)[OF u])
  show "ag_errors (snd (select_provider env task_info ag))
          = ag_errors ag @ [''Unknown provider preference: '' @ env_str env (preference_of task_info)]"
    by (rule select_provider_unknown(3)[OF u])
next
  let ?ti = "interpret_instruction (env_reply env) instruction"
  let ?ag2 = "interpreted env instruction ag"
  assume u: "preference_of ?ti \<notin> {JStr ''auto'', JStr ''gmail'', JStr ''outlook''}"
  have n: "fst (select_provider env ?ti ?ag2) = None"
    by (rule select_provider_unknown(1)[OF u])
  show "r_success (fst (execute env instruction ag)) = False"
    by (rule execute_unselected(1)[OF n])
  show "r_error (fst (execute env instruction ag)) = Some ''No suitable provider available''"
    by (rule execute_unselected(2)[OF n])
  show "ag_warnings (snd (execute env instruction ag)) = ag_warnings ag"
    by (simp add: execute_unselected(3)[OF n] cleanup_browser_logs
          select_provider_unknown(2)[OF u] interpreted_fields)
  show "ag_errors (snd (execute env instruction ag))
          = ag_errors ag @ [''Unknown provider preference: '' @ env_str env (preference_of ?ti)]"
    by (simp add: execute_unselected(3)[OF n] cleanup_browser_logs
          select_provider_unknown(3)[OF u] interpreted_fields)
next
  assume e: "get_available_providers (ag_config ag) = []"
  show "fst (select_provider env task_info ag) = None"
    by (rule select_provider_none_configured[OF e])
  have "get_available_providers (ag_config (interpreted env instruction ag)) = []"
    using e by (simp add: interpreted_fields)
  then have n: "fst (select_provider env (interpret_instruction (env_reply env) instruction)
                       (interpreted env instruction ag)) = None"
    by (rule select_provider_none_configured)
  show "r_success (fst (execute env instruction ag)) = False"
    by (rule execute_unselected(1)[OF n])
  show "r_error (fst (execute env instruction ag)) = Some ''No suitable provider available''"
    by (rule execute_unselected(2)[OF n])
next
  fix cfg
  assume "get_available_providers cfg = []"
  then show "new_agent cfg = Inl (if openai_api_key cfg = [] then ''OpenAI API key is required''
                             else ''At least one email provider must be configured'')"
    by (auto simp: new_agent_def validate_def get_available_providers_def split: if_splits)
qed

text \<open>
  Both providers are configured and the preference is \<open>auto\<close>: \<open>gmail\<close> is selected. The
  task names \<open>outlook\<close> and only Gmail is configured: \<open>gmail\<close> is selected and one warning
  is logged. The model's reply names \<open>yahoo\<close>: the run fails, with the error logged. The
  constructor refuses a configuration with no provider; the run of an agent whose
  credentials were cleared after it was made fails.
\<close>

theorem provider_selection_policy_witness:
  "new_agent demo_cfg = Inr demo_agent
   \<and> new_agent both_cfg = Inr both_agent
   \<and> fst (select_provider demo_env [(''provider_preference'', JStr ''auto'')] both_agent) = Some ''gmail''
   \<and> fst (select_provider demo_env [(''provider_preference'', JStr ''outlook'')] demo_agent)
       = Some ''gmail''
   \<and> ag_warnings (snd (select_provider demo_env
                          [(''provider_preference'', JStr ''outlook'')] demo_agent))
       = [''Preferred provider '' @ [CHR 0x27] @ ''outlook'' @ [CHR 0x27] @ '' not configured'']
   \<and> r_success (fst (execute yahoo_env ''send email to alice@example.com saying Hello'' demo_agent))
       = False
   \<and> r_error (fst (execute yahoo_env ''send email to alice@example.com saying Hello'' demo_agent))
       = Some ''No suitable provider available''
   \<and> ag_errors (snd (execute yahoo_env ''send email to alice@example.com saying Hello'' demo_agent))
       = [''Unknown provider preference: yahoo'']
   \<and> new_agent no_provider_cfg = Inl ''At least one email provider must be configured''
   \<and> r_error (fst (execute demo_env ''send email to alice@example.com saying Hello''
                      (clear_credentials demo_agent)))
       = Some ''No suitable provider available''"
proof -
  let ?instr = "''send email to alice@example.com saying Hello''"
  have made: "new_agent demo_cfg = Inr demo_agent"
    by (simp add: new_agent_def validate_def demo_cfg_def demo_agent_def truthy_str_def)
  have made2: "new_agent both_cfg = Inr both_agent"
    by (simp add: new_agent_def validate_def both_cfg_def both_agent_def truthy_str_def)
  have auto_pref: "preference_of [(''provider_preference'', JStr ''auto'')] = JStr ''auto''"
    by (simp add: preference_of_def dict_get_def)
  have both: "is_provider_configured (ag_config both_agent) ''gmail''
              \<and> is_provider_configured (ag_config both_agent) ''outlook''"
    by (simp add: is_provider_configured_def both_agent_def both_cfg_def
          get_available_providers_def truthy_str_def)
  from provider_selection_policy[where task_info = "[(''provider_preference'', JStr ''auto'')]"
         and env = demo_env and ag = both_agent and instruction = ?instr]
    auto_pref both
  have a: "fst (select_provider demo_env [(''provider_preference'', JStr ''auto'')] both_agent)
             = Some ''gmail''"
    by blast
  have pref: "preference_of [(''provider_preference'', JStr ''outlook'')] = JStr ''outlook''"
    by (simp add: preference_of_def dict_get_def)
  have avail: "get_available_providers (ag_config demo_agent) = [''gmail'']"
    by (simp add: demo_agent_def demo_cfg_def get_available_providers_def truthy_str_def)
  have unmet: "\<not> is_provider_configured (ag_config demo_agent) ''outlook''"
    by (simp add: is_provider_configured_def avail)
  have w: "ag_warnings demo_agent = []" "ag_errors demo_agent = []"
    by (simp_all add: ag_warnings_def ag_errors_def demo_agent_def new_action_logger_def)
  from provider_selection_policy[where task_info = "[(''provider_preference'', JStr ''outlook'')]"
         and env = demo_env and ag = demo_agent and instruction = ?instr]
    pref unmet
  have "fst (select_provider demo_env [(''provider_preference'', JStr ''outlook'')] demo_agent)
          = first_available (get_available_providers (ag_config demo_agent))
        \<and> ag_warnings (snd (select_provider demo_env
                               [(''provider_preference'', JStr ''outlook'')] demo_agent))
          = ag_warnings demo_agent @ [unmet_warning ''outlook'']"
    by blast
  then have b: "fst (select_provider demo_env [(''provider_preference'', JStr ''outlook'')] demo_agent)
                  = Some ''gmail''"
    "ag_warnings (snd (select_provider demo_env
                               [(''provider_preference'', JStr ''outlook'')] demo_agent))
       = [''Preferred provider '' @ [CHR 0x27] @ ''outlook'' @ [CHR 0x27] @ '' not configured'']"
    by (simp_all add: avail w first_available_def unmet_warning_def)
  have yahoo: "preference_of (interpret_instruction (env_reply yahoo_env) ?instr) = JStr ''yahoo''"
    by code_simp
  have str: "env_str yahoo_env (JStr ''yahoo'') = ''yahoo''"
    by (simp add: yahoo_env_def demo_env_def str_plain_def)
  from provider_selection_policy[where task_info = "[]"
         and env = yahoo_env and ag = demo_agent and instruction = ?instr]
  have "preference_of (interpret_instruction (env_reply yahoo_env) ?instr)
         \<notin> {JStr ''auto'', JStr ''gmail'', JStr ''outlook''} \<longrightarrow>
      r_success (fst (execute yahoo_env ?instr demo_agent)) = False
      \<and> r_error (fst (execute yahoo_env ?instr demo_agent)) = Some ''No suitable provider available''
      \<and> ag_warnings (snd (execute yahoo_env ?instr demo_agent)) = ag_warnings demo_agent
      \<and> ag_errors (snd (execute yahoo_env ?instr demo_agent))
          = ag_errors demo_agent @ [''Unknown provider preference: ''
                            @ env_str yahoo_env (preference_of (interpret_instruction (env_reply yahoo_env) ?instr))]"
    by blast
  with yahoo str w
  have c: "r_success (fst (execute yahoo_env ?instr demo_agent)) = False"
    "r_error (fst (execute yahoo_env ?instr demo_agent)) = Some ''No suitable provider available''"
    "ag_errors (snd (execute yahoo_env ?instr demo_agent)) = [''Unknown provider preference: yahoo'']"
    by simp_all
  have none: "get_available_providers (ag_config (clear_credentials demo_agent)) = []"
    by (simp add: clear_credentials_def get_available_providers_def truthy_str_def)
  have none2: "get_available_providers no_provider_cfg = []"
    by (simp add: no_provider_cfg_def get_available_providers_def truthy_str_def)
  have key: "openai_api_key no_provider_cfg \<noteq> []"
    by (simp add: no_provider_cfg_def)
  from provider_selection_policy[where task_info = "[]"
         and env = demo_env and ag = "clear_credentials demo_agent" and instruction = ?instr]
    none none2 key
  have d: "r_error (fst (execute demo_env ?instr (clear_credentials demo_agent)))
             = Some ''No suitable provider available''"
    "new_agent no_provider_cfg = Inl ''At least one email provider must be configured''"
    by simp_all
  from made made2 a b c d show ?thesis by simp
qed

end
